theory Spec2Isabelle
  imports Complex_Main "HOL-Library.Sublist"
begin

section \<open>Python values\<close>

text \<open>
  The package handles the provider's decoded JSON without checking its types, so the
  values of the model are dynamically typed. A Python \<open>str\<close> is a \<open>string\<close> whose
  characters are the code points 0 to 255; \<open>bytes\<close> are a list of the same 8-bit
  characters. A \<open>float\<close> is represented by the rational it denotes; a \<open>dict\<close> decoded
  from JSON has string keys and is an association list read by its first binding.
\<close>

type_synonym bytes = "char list"

datatype pyval =
    PNone
  | PBool bool
  | PInt int
  | PFloat rat
  | PStr string
  | PList "pyval list"
  | PDict "(string \<times> pyval) list"
  | PDatetime int int int

text \<open>
  The exceptions the modelled code can raise. The first five are Python's own, the next
  five are the classes of the package's \<open>errors\<close> module with their constructor
  arguments, and \<open>TransportError\<close> stands for whatever the HTTP client raises (a
  connection failure, a status outside 2xx, a body that is no JSON).
\<close>

datatype error =
    KeyError string
  | TypeError
  | AttributeError string
  | IndexError
  | ValueError
  | DeezerLoginError
  | DeezerApiError pyval pyval pyval
  | DownloadError pyval
  | ActionNotSupported string
  | InvalidUrlError string
  | TransportError string

definition and_then :: "error + 'a \<Rightarrow> ('a \<Rightarrow> error + 'b) \<Rightarrow> error + 'b" where
  "and_then m f = (case m of Inl e \<Rightarrow> Inl e | Inr v \<Rightarrow> f v)"

text \<open>\<open>d[k]\<close> for a string literal \<open>k\<close>.\<close>

fun subscript :: "pyval \<Rightarrow> string \<Rightarrow> error + pyval" where
  "subscript (PDict kvs) k = (case map_of kvs k of None \<Rightarrow> Inl (KeyError k) | Some v \<Rightarrow> Inr v)"
| "subscript _ k = Inl TypeError"

definition subscript2 :: "pyval \<Rightarrow> string \<Rightarrow> string \<Rightarrow> error + pyval" where
  "subscript2 d k1 k2 = and_then (subscript d k1) (\<lambda>v. subscript v k2)"

text \<open>\<open>d.get(k)\<close>: only a \<open>dict\<close> has the method.\<close>

fun py_get :: "pyval \<Rightarrow> string \<Rightarrow> error + pyval" where
  "py_get (PDict kvs) k = (case map_of kvs k of None \<Rightarrow> Inr PNone | Some v \<Rightarrow> Inr v)"
| "py_get _ k = Inl (AttributeError ''get'')"

text \<open>Truth value testing, as \<open>if x\<close> and \<open>not x\<close> do it.\<close>

fun truthy :: "pyval \<Rightarrow> bool" where
  "truthy PNone = False"
| "truthy (PBool b) = b"
| "truthy (PInt i) = (i \<noteq> 0)"
| "truthy (PFloat r) = (r \<noteq> 0)"
| "truthy (PStr s) = (s \<noteq> [])"
| "truthy (PList xs) = (xs \<noteq> [])"
| "truthy (PDict kvs) = (kvs \<noteq> [])"
| "truthy (PDatetime y m d) = True"

text \<open>\<open>isinstance(x, list)\<close>.\<close>

fun is_list :: "pyval \<Rightarrow> bool" where
  "is_list (PList xs) = True"
| "is_list _ = False"

subsection \<open>Strings and bytes\<close>

text \<open>\<open>str(n)\<close> for an \<open>int\<close>: the decimal digits, after a minus sign when negative.\<close>

definition digit_char :: "nat \<Rightarrow> char" where
  "digit_char d = ''0123456789'' ! d"

fun str_nat :: "nat \<Rightarrow> string" where
  "str_nat n = (if n < 10 then [digit_char n] else str_nat (n div 10) @ [digit_char (n mod 10)])"

declare str_nat.simps [simp del]

definition str_int :: "int \<Rightarrow> string" where
  "str_int i = (if i < 0 then CHR ''-'' # str_nat (nat (- i)) else str_nat (nat i))"

text \<open>\<open>s.encode()\<close>: UTF-8, which takes two bytes for a code point from 128 to 255.\<close>

definition utf8_char :: "char \<Rightarrow> bytes" where
  "utf8_char c =
     (let n = (of_char c :: nat)
      in if n < 128 then [c] else [char_of (192 + n div 64), char_of (128 + n mod 64)])"

definition encode :: "string \<Rightarrow> bytes" where
  "encode s = concat (map utf8_char s)"

text \<open>\<open>x.encode()\<close> on a value: only a \<open>str\<close> has the method.\<close>

fun py_encode :: "pyval \<Rightarrow> error + bytes" where
  "py_encode (PStr s) = Inr (encode s)"
| "py_encode _ = Inl (AttributeError ''encode'')"

fun encode_all :: "pyval list \<Rightarrow> error + bytes list" where
  "encode_all [] = Inr []"
| "encode_all (v # vs) =
     and_then (py_encode v) (\<lambda>b. and_then (encode_all vs) (\<lambda>bs. Inr (b # bs)))"

text \<open>\<open>sep.join(parts)\<close>.\<close>

fun join :: "'a list \<Rightarrow> 'a list list \<Rightarrow> 'a list" where
  "join sep [] = []"
| "join sep [x] = x"
| "join sep (x # y # zs) = x @ sep @ join sep (y # zs)"

text \<open>\<open>binascii.b2a_hex\<close> and \<open>hexdigest\<close>: two lower-case hexadecimal digits a byte.\<close>

definition hex_digit :: "nat \<Rightarrow> char" where
  "hex_digit d = ''0123456789abcdef'' ! d"

definition b2a_hex :: "bytes \<Rightarrow> bytes" where
  "b2a_hex bs = concat (map (\<lambda>b. [hex_digit (of_char b div 16), hex_digit (of_char b mod 16)]) bs)"

text \<open>\<open>s[0]\<close> inside an f-string: the first character of a \<open>str\<close>.\<close>

fun first_char :: "pyval \<Rightarrow> error + string" where
  "first_char (PStr []) = Inl IndexError"
| "first_char (PStr (c # cs)) = Inr [c]"
| "first_char _ = Inl TypeError"

section \<open>What the code runs against\<close>

text \<open>
  A Python instance is its attribute dictionary: an attribute that was declared in the
  class body but never assigned is absent, and reading it raises \<open>AttributeError\<close>.
\<close>

type_synonym obj = "string \<rightharpoonup> pyval"

definition getattr :: "obj \<Rightarrow> string \<Rightarrow> error + pyval" where
  "getattr ob name = (case ob name of None \<Rightarrow> Inl (AttributeError name) | Some v \<Rightarrow> Inr v)"

text \<open>What the session sends and schedules, in order.\<close>

datatype event =
    Post string "(string \<times> pyval) list" pyval "(string \<times> string) list"
  | Get string "(string \<times> string) list"
  | Progress int int

text \<open>The answer to a streaming GET: \<open>int(response.headers["Content-Length"])\<close> or the
  exception this raises, the chunks of the body, and the exception that ends the body
  early, if any.\<close>

record stream =
  content_length :: "error + int"
  chunks :: "bytes list"
  broken :: "error option"

text \<open>
  Everything the source files use and do not define. The module \<open>consts\<close> is not among
  the source files, so its four constants are parameters. The digest, the block cipher,
  the date parser and the formatting of floats belong to libraries. The clock and the
  provider answer as functions of everything sent so far, the request being answered
  last.
\<close>

record env =
  METHOD_GET_USER :: string
  METHOD_PAGE_TRACK :: string
  API_URL :: string
  LEGACY_API_URL :: string
  md5_digest :: "bytes \<Rightarrow> bytes"
  aes_encrypt_block :: "bytes \<Rightarrow> bytes \<Rightarrow> bytes"
  strptime :: "pyval \<Rightarrow> error + pyval"
  format_gain :: "pyval \<Rightarrow> error + pyval"
  repr_other :: "pyval \<Rightarrow> string"
  time :: "event list \<Rightarrow> rat"
  json_response :: "event list \<Rightarrow> error + pyval"
  stream_response :: "event list \<Rightarrow> error + stream"

text \<open>\<open>str(x)\<close>; the \<open>repr\<close> of floats, containers and dates is the library's.\<close>

definition py_str :: "env \<Rightarrow> pyval \<Rightarrow> string" where
  "py_str E v =
     (case v of
        PStr s \<Rightarrow> s
      | PInt i \<Rightarrow> str_int i
      | PBool b \<Rightarrow> (if b then ''True'' else ''False'')
      | PNone \<Rightarrow> ''None''
      | _ \<Rightarrow> repr_other E v)"

text \<open>An environment to run the model on: the constants as the provider names them,
  the libraries replaced by the simplest functions of their types, and no network.\<close>

definition demo_env :: env where
  "demo_env =
     \<lparr> METHOD_GET_USER = ''deezer.getUserData'', METHOD_PAGE_TRACK = ''deezer.pageTrack'',
       API_URL = ''https://www.deezer.com/ajax/gw-light.php'',
       LEGACY_API_URL = ''https://api.deezer.com/'',
       md5_digest = (\<lambda>bs. replicate 16 (CHR 0x00)), aes_encrypt_block = (\<lambda>k b. b),
       strptime = (\<lambda>v. Inr v), format_gain = (\<lambda>v. Inr v), repr_other = (\<lambda>v. ''?''),
       time = (\<lambda>l. 0), json_response = (\<lambda>l. Inl (TransportError ''offline'')),
       stream_response = (\<lambda>l. Inl (TransportError ''offline'')) \<rparr>"

definition demo_track :: obj where
  "demo_track =
     [''md5_origin'' \<mapsto> PStr ''abc123'', ''id'' \<mapsto> PInt 12345, ''media_version'' \<mapsto> PStr ''1'']"

section \<open>utils.py\<close>

definition md5hex :: "env \<Rightarrow> bytes \<Rightarrow> bytes" where
  "md5hex E data = encode (b2a_hex (md5_digest E data))"

text \<open>The comparisons are Python's \<open>==\<close> against a \<open>str\<close> literal, which holds for that
  \<open>str\<close> only; \<open>download_album\<close> passes \<open>None\<close> when no bitrate is given.\<close>

definition get_quality :: "pyval \<Rightarrow> string" where
  "get_quality bitrate =
     (if bitrate = PStr ''FLAC'' then ''9''
      else if bitrate = PStr ''MP3_320'' then ''3''
      else if bitrate = PStr ''MP3_256'' then ''5''
      else ''1'')"

text \<open>ECB mode: each block of 16 bytes is encrypted on its own; the library refuses data
  that is not a whole number of blocks.\<close>

fun blocks16 :: "bytes \<Rightarrow> bytes list" where
  "blocks16 bs = (if length bs \<le> 16 then (if bs = [] then [] else [bs])
                  else take 16 bs # blocks16 (drop 16 bs))"

declare blocks16.simps [simp del]

definition ecb_encrypt :: "env \<Rightarrow> bytes \<Rightarrow> bytes \<Rightarrow> error + bytes" where
  "ecb_encrypt E key data =
     (if length data mod 16 \<noteq> 0 then Inl ValueError
      else Inr (concat (map (aes_encrypt_block E key) (blocks16 data))))"

definition get_stream_url :: "env \<Rightarrow> obj \<Rightarrow> string \<Rightarrow> error + string" where
  "get_stream_url E track quality =
     and_then (getattr track ''md5_origin'') (\<lambda>md5_origin.
     and_then (getattr track ''id'') (\<lambda>track_id.
     and_then (getattr track ''media_version'') (\<lambda>media_version.
     and_then (encode_all [md5_origin, PStr quality, PStr (py_str E track_id), media_version])
       (\<lambda>parts.
         let data = join [CHR 0xA4] parts;
             data = join [CHR 0xA4] [md5hex E data, data] @ [CHR 0xA4];
             data = (if length data mod 16 \<noteq> 0
                     then data @ replicate (16 - length data mod 16) (CHR 0x00) else data)
         in and_then (ecb_encrypt E (encode ''jo6aey6haid2Teih'') data) (\<lambda>c.
            let hashs = b2a_hex c
            in and_then (first_char md5_origin) (\<lambda>h.
               Inr (''http://e-cdn-proxy-'' @ h @ ''.dzcdn.net/api/1/'' @ hashs)))))))"

text \<open>\<open>x == 0\<close>.\<close>

definition eq_zero :: "pyval \<Rightarrow> bool" where
  "eq_zero v = (v = PInt 0 \<or> v = PBool False \<or> v = PFloat 0)"

section \<open>session.py: the session and the private API\<close>

text \<open>
  The state the code changes: the fields of the one \<open>Session\<close>, the two class-wide
  caches of \<open>types.py\<close> with the store of the instances they refer to, and the log of
  everything sent.
\<close>

record world =
  arl_token :: string
  csrf_token :: pyval
  session_expires :: rat
  client_open :: bool
  track_cache :: "pyval \<rightharpoonup> nat"
  album_cache :: "pyval \<rightharpoonup> nat"
  heap :: "nat \<rightharpoonup> obj"
  next_ref :: nat
  log :: "event list"

definition Session_init :: "string \<Rightarrow> world" where
  "Session_init arl =
     \<lparr> arl_token = arl, csrf_token = PStr [], session_expires = 0, client_open = False,
       track_cache = Map.empty, album_cache = Map.empty, heap = Map.empty, next_ref = 0,
       log = [] \<rparr>"

definition update_requests_session :: "world \<Rightarrow> world" where
  "update_requests_session w = w\<lparr>client_open := True\<rparr>"

text \<open>
  \<open>get_api\<close> and \<open>_refresh_session\<close> call each other; the recursion ends because the
  refresh asks for the one method that is exempt from refreshing. \<open>time.time()\<close> is
  read once in the condition and once more after the identity lookup has been answered.
\<close>

function get_api :: "env \<Rightarrow> world \<Rightarrow> string \<Rightarrow> pyval \<Rightarrow> (error + pyval) \<times> world"
  and refresh_session :: "env \<Rightarrow> world \<Rightarrow> (error + unit) \<times> world"
where
  "get_api E w method json =
     (case (if method \<noteq> METHOD_GET_USER E \<and>
               (\<not> truthy (csrf_token w) \<or> session_expires w > time E (log w))
            then refresh_session E w else (Inr (), w)) of
        (Inl e, w1) \<Rightarrow> (Inl e, w1)
      | (Inr u, w1) \<Rightarrow>
          (let params = [(''api_version'', PStr ''1.0''), (''api_token'', csrf_token w1),
                         (''input'', PStr ''3''), (''method'', PStr method)];
               w2 = update_requests_session w1;
               w3 = w2\<lparr>log := log w2 @ [Post (API_URL E) params json [(''arl'', arl_token w2)]]\<rparr>
           in (and_then (json_response E (log w3)) (\<lambda>response. subscript response ''results''),
               w3)))"
| "refresh_session E w =
     (case get_api E w (METHOD_GET_USER E) PNone of
        (Inl e, w1) \<Rightarrow> (Inl e, w1)
      | (Inr user, w1) \<Rightarrow>
          (case subscript2 user ''USER'' ''USER_ID'' of
             Inl e \<Rightarrow> (Inl e, w1)
           | Inr user_id \<Rightarrow>
               if eq_zero user_id then (Inl DeezerLoginError, w1)
               else (case subscript user ''checkForm'' of
                       Inl e \<Rightarrow> (Inl e, w1)
                     | Inr token \<Rightarrow>
                         (Inr (), w1\<lparr>csrf_token := token,
                                       session_expires := time E (log w1) + 3600\<rparr>))))"
  by pat_completeness auto
termination
  by (relation "measure (\<lambda>x. case x of
        Inl (E, w, method, json) \<Rightarrow> (if method = METHOD_GET_USER E then 0 else 2)
      | Inr (E, w) \<Rightarrow> 1)") auto

declare get_api.simps [simp del] refresh_session.simps [simp del]

text \<open>Observations on a run: what it added to the log, and whether an event is the
  identity lookup that a refresh sends.\<close>

definition new_events :: "world \<Rightarrow> world \<Rightarrow> event list" where
  "new_events w w' = drop (length (log w)) (log w')"

fun is_refresh_post :: "env \<Rightarrow> event \<Rightarrow> bool" where
  "is_refresh_post E (Post url params json cookies) =
     (map_of params ''method'' = Some (PStr (METHOD_GET_USER E)))"
| "is_refresh_post E _ = False"

definition api_post :: "env \<Rightarrow> world \<Rightarrow> string \<Rightarrow> pyval \<Rightarrow> event" where
  "api_post E w method json =
     Post (API_URL E)
       [(''api_version'', PStr ''1.0''), (''api_token'', csrf_token w), (''input'', PStr ''3''),
        (''method'', PStr method)] json [(''arl'', arl_token w)]"

text \<open>A session whose token was issued long ago: it expired at 100, the clock shows
  200, and the provider answers every call with an empty result.\<close>

definition stale_env :: env where
  "stale_env = demo_env\<lparr>time := (\<lambda>l. 200),
                         json_response := (\<lambda>l. Inr (PDict [(''results'', PDict [])]))\<rparr>"

definition stale_world :: world where
  "stale_world = (Session_init ''arl'')\<lparr>csrf_token := PStr ''tok'', session_expires := 100\<rparr>"

section \<open>types.py: tracks, albums and their caches\<close>

subsection \<open>Statements on an instance\<close>

text \<open>
  The constructors and \<open>add_more_tags\<close> are runs of assignments \<open>self.name = expression\<close>.
  An expression that raises ends the run and leaves the attributes assigned so far.
\<close>

type_synonym step = "obj \<Rightarrow> error option \<times> obj"

definition assign :: "string \<Rightarrow> error + pyval \<Rightarrow> step" where
  "assign name rhs ob = (case rhs of Inl e \<Rightarrow> (Some e, ob) | Inr v \<Rightarrow> (None, ob(name \<mapsto> v)))"

fun seqs :: "step list \<Rightarrow> step" where
  "seqs [] ob = (None, ob)"
| "seqs (s # ss) ob = (case s ob of (Some e, ob') \<Rightarrow> (Some e, ob') | (None, ob') \<Rightarrow> seqs ss ob')"

definition cond :: "error + bool \<Rightarrow> step \<Rightarrow> step \<Rightarrow> step" where
  "cond c s1 s2 ob = (case c of Inl e \<Rightarrow> (Some e, ob) | Inr b \<Rightarrow> if b then s1 ob else s2 ob)"

definition raise :: "error + error \<Rightarrow> step" where
  "raise r ob = (case r of Inl e \<Rightarrow> (Some e, ob) | Inr e \<Rightarrow> (Some e, ob))"

subsection \<open>More of Python\<close>

text \<open>\<open>k in x\<close> for a string literal \<open>k\<close>: a key of a \<open>dict\<close>, an element of a \<open>list\<close>, a
  substring of a \<open>str\<close>.\<close>

fun contains_str :: "string \<Rightarrow> string \<Rightarrow> bool" where
  "contains_str k [] = (k = [])"
| "contains_str k (c # cs) = (prefix k (c # cs) \<or> contains_str k cs)"

fun py_in :: "string \<Rightarrow> pyval \<Rightarrow> error + bool" where
  "py_in k (PDict kvs) = Inr (k \<in> fst ` set kvs)"
| "py_in k (PList xs) = Inr (PStr k \<in> set xs)"
| "py_in k (PStr s) = Inr (contains_str k s)"
| "py_in k _ = Inl TypeError"

text \<open>\<open>k in x.keys()\<close>.\<close>

fun py_in_keys :: "string \<Rightarrow> pyval \<Rightarrow> error + bool" where
  "py_in_keys k (PDict kvs) = Inr (k \<in> fst ` set kvs)"
| "py_in_keys k _ = Inl (AttributeError ''keys'')"

text \<open>What a \<open>for\<close> clause iterates over: the elements of a \<open>list\<close>, the keys of a
  \<open>dict\<close>, the characters of a \<open>str\<close>.\<close>

fun py_iter :: "pyval \<Rightarrow> error + pyval list" where
  "py_iter (PList xs) = Inr xs"
| "py_iter (PDict kvs) = Inr (map (\<lambda>kv. PStr (fst kv)) kvs)"
| "py_iter (PStr s) = Inr (map (\<lambda>c. PStr [c]) s)"
| "py_iter _ = Inl TypeError"

fun map_result :: "('a \<Rightarrow> error + 'b) \<Rightarrow> 'a list \<Rightarrow> error + 'b list" where
  "map_result f [] = Inr []"
| "map_result f (x # xs) =
     and_then (f x) (\<lambda>y. and_then (map_result f xs) (\<lambda>ys. Inr (y # ys)))"

text \<open>\<open>[x["name"] for x in v]\<close>.\<close>

definition names_of :: "pyval \<Rightarrow> error + pyval" where
  "names_of v =
     and_then (py_iter v) (\<lambda>xs.
     and_then (map_result (\<lambda>x. subscript x ''name'') xs) (\<lambda>ns. Inr (PList ns)))"

text \<open>\<open>s.split(", ")\<close>: the pieces between the occurrences of the separator, found from
  the left.\<close>

fun split_comma_space :: "string \<Rightarrow> string list" where
  "split_comma_space [] = [[]]"
| "split_comma_space (c # cs) =
     (if c = CHR '','' \<and> cs \<noteq> [] \<and> hd cs = CHR '' '' then [] # split_comma_space (tl cs)
      else (case split_comma_space cs of
              [] \<Rightarrow> [[c]]
            | p # ps \<Rightarrow> (c # p) # ps))"

fun py_split :: "pyval \<Rightarrow> error + pyval" where
  "py_split (PStr s) = Inr (PList (map PStr (split_comma_space s)))"
| "py_split _ = Inl (AttributeError ''split'')"

text \<open>A value as a key of a \<open>dict\<close>: numbers that compare equal are one key, and a \<open>list\<close>
  or a \<open>dict\<close> cannot be hashed.\<close>

fun cache_key :: "pyval \<Rightarrow> error + pyval" where
  "cache_key (PList xs) = Inl TypeError"
| "cache_key (PDict kvs) = Inl TypeError"
| "cache_key (PBool b) = Inr (PInt (if b then 1 else 0))"
| "cache_key (PFloat r) = (if r = of_int \<lfloor>r\<rfloor> then Inr (PInt \<lfloor>r\<rfloor>) else Inr (PFloat r))"
| "cache_key v = Inr v"

subsection \<open>The store\<close>

text \<open>A reference is an address of the store. The model never frees an instance, so a
  reference it hands out always has its object; an address without one reads as an
  instance without attributes.\<close>

definition deref :: "world \<Rightarrow> nat \<Rightarrow> obj" where
  "deref w a = (case heap w a of None \<Rightarrow> Map.empty | Some ob \<Rightarrow> ob)"

definition run_on :: "world \<Rightarrow> nat \<Rightarrow> step \<Rightarrow> (error + unit) \<times> world" where
  "run_on w self body =
     (case body (deref w self) of
        (Some e, ob) \<Rightarrow> (Inl e, w\<lparr>heap := (heap w)(self \<mapsto> ob)\<rparr>)
      | (None, ob) \<Rightarrow> (Inr (), w\<lparr>heap := (heap w)(self \<mapsto> ob)\<rparr>))"

subsection \<open>Track\<close>

text \<open>\<open>raise errors.DeezerApiError(info["error"]["type"], info["error"]["message"],
  info["error"]["code"])\<close>: the arguments are evaluated first, and may raise themselves.\<close>

definition api_error :: "pyval \<Rightarrow> error + error" where
  "api_error info =
     and_then (subscript2 info ''error'' ''type'') (\<lambda>t.
     and_then (subscript2 info ''error'' ''message'') (\<lambda>m.
     and_then (subscript2 info ''error'' ''code'') (\<lambda>c. Inr (DeezerApiError t m c))))"

definition Track_new :: "world \<Rightarrow> pyval \<Rightarrow> (error + nat) \<times> world" where
  "Track_new w track_info =
     (case and_then (subscript track_info ''id'') cache_key of
        Inl e \<Rightarrow> (Inl e, w)
      | Inr track_id \<Rightarrow>
          (case track_cache w track_id of
             Some a \<Rightarrow> (Inr a, w)
           | None \<Rightarrow>
               (Inr (next_ref w),
                w\<lparr>track_cache := (track_cache w)(track_id \<mapsto> next_ref w),
                  heap := (heap w)(next_ref w \<mapsto> Map.empty),
                  next_ref := Suc (next_ref w)\<rparr>)))"

definition Track_init_body :: "env \<Rightarrow> pyval \<Rightarrow> step" where
  "Track_init_body E track_info =
     cond (py_in ''error'' track_info)
       (raise (api_error track_info))
       (seqs
         [assign ''album_id'' (subscript2 track_info ''album'' ''id''),
          assign ''artist'' (subscript2 track_info ''artist'' ''name''),
          assign ''artists'' (and_then (subscript track_info ''contributors'') names_of),
          assign ''bpm'' (subscript track_info ''bpm''),
          assign ''disk_number'' (subscript track_info ''disk_number''),
          assign ''duration'' (subscript track_info ''duration''),
          assign ''id'' (subscript track_info ''id''),
          assign ''isrc'' (subscript track_info ''isrc''),
          assign ''link'' (subscript track_info ''link''),
          assign ''number'' (subscript track_info ''track_position''),
          assign ''preview_link'' (subscript track_info ''preview''),
          assign ''rank'' (subscript track_info ''rank''),
          assign ''replaygain_track_gain''
            (and_then (subscript track_info ''gain'') (format_gain E)),
          assign ''release_date''
            (and_then (subscript track_info ''release_date'') (strptime E)),
          assign ''title'' (subscript track_info ''title''),
          assign ''title_short'' (subscript track_info ''title_short'')])"

definition Track_init :: "env \<Rightarrow> world \<Rightarrow> nat \<Rightarrow> pyval \<Rightarrow> (error + unit) \<times> world" where
  "Track_init E w self track_info = run_on w self (Track_init_body E track_info)"

text \<open>The call \<open>Track(track_info)\<close>: \<open>__new__\<close>, then \<open>__init__\<close> on what it returned.\<close>

definition Track :: "env \<Rightarrow> world \<Rightarrow> pyval \<Rightarrow> (error + nat) \<times> world" where
  "Track E w track_info =
     (case Track_new w track_info of
        (Inl e, w1) \<Rightarrow> (Inl e, w1)
      | (Inr self, w1) \<Rightarrow>
          (case Track_init E w1 self track_info of
             (Inl e, w2) \<Rightarrow> (Inl e, w2)
           | (Inr u, w2) \<Rightarrow> (Inr self, w2)))"

text \<open>\<open>init_via_track_id\<close> is called without a client session: the helper opens one of its
  own for the GET on the public API.\<close>

definition json_get_request :: "env \<Rightarrow> world \<Rightarrow> string \<Rightarrow> (error + pyval) \<times> world" where
  "json_get_request E w url =
     (let w1 = w\<lparr>log := log w @ [Get url []]\<rparr> in (json_response E (log w1), w1))"

definition init_via_track_id :: "env \<Rightarrow> world \<Rightarrow> int \<Rightarrow> (error + nat) \<times> world" where
  "init_via_track_id E w track_id =
     (case json_get_request E w (''https://api.deezer.com/track/'' @ str_int track_id) of
        (Inl e, w1) \<Rightarrow> (Inl e, w1)
      | (Inr info, w1) \<Rightarrow> Track E w1 info)"

text \<open>The two branching statements of \<open>add_more_tags\<close>: on the shape of the contributors
  and on the presence of lyrics.\<close>

definition contributors_step :: "pyval \<Rightarrow> step" where
  "contributors_step r =
     cond (and_then (subscript2 r ''DATA'' ''SNG_CONTRIBUTORS'') (\<lambda>c. Inr (is_list c)))
       (seqs [assign ''composer'' (Inr PNone), assign ''author'' (Inr PNone)])
       (seqs
         [assign ''composer''
            (and_then (subscript2 r ''DATA'' ''SNG_CONTRIBUTORS'') (\<lambda>c. py_get c ''composer'')),
          assign ''author''
            (and_then (subscript2 r ''DATA'' ''SNG_CONTRIBUTORS'') (\<lambda>c. py_get c ''author''))])"

definition lyrics_step :: "pyval \<Rightarrow> step" where
  "lyrics_step r =
     cond (py_in_keys ''LYRICS'' r)
       (seqs
         [assign ''lyrics''
            (and_then (subscript r ''LYRICS'') (\<lambda>l. py_get l ''LYRICS_TEXT'')),
          assign ''lyrics_sync''
            (and_then (subscript r ''LYRICS'') (\<lambda>l. py_get l ''LYRICS_SYNC_JSON'')),
          assign ''lyrics_copyrights''
            (and_then (subscript r ''LYRICS'') (\<lambda>l. py_get l ''LYRICS_COPYRIGHTS'')),
          assign ''lyrics_writers''
            (and_then (subscript r ''LYRICS'') (\<lambda>l.
             and_then (py_get l ''LYRICS_WRITERS'') py_split))])
       (seqs
         [assign ''lyrics'' (Inr PNone),
          assign ''lyrics_sync'' (Inr PNone),
          assign ''lyrics_copyrights'' (Inr PNone),
          assign ''lyrics_writers'' (Inr PNone)])"

definition add_more_tags_body :: "pyval \<Rightarrow> step" where
  "add_more_tags_body r =
     seqs
       [assign ''md5_origin'' (subscript2 r ''DATA'' ''MD5_ORIGIN''),
        assign ''media_version'' (subscript2 r ''DATA'' ''MEDIA_VERSION''),
        contributors_step r,
        assign ''copyright'' (subscript2 r ''DATA'' ''COPYRIGHT''),
        lyrics_step r]"

definition add_more_tags :: "env \<Rightarrow> world \<Rightarrow> nat \<Rightarrow> (error + unit) \<times> world" where
  "add_more_tags E w self =
     (case getattr (deref w self) ''id'' of
        Inl e \<Rightarrow> (Inl e, w)
      | Inr track_id \<Rightarrow>
          (case get_api E w (METHOD_PAGE_TRACK E) (PDict [(''sng_id'', track_id)]) of
             (Inl e, w1) \<Rightarrow> (Inl e, w1)
           | (Inr r, w1) \<Rightarrow> run_on w1 self (add_more_tags_body r)))"

subsection \<open>Album\<close>

definition Album_new :: "world \<Rightarrow> pyval \<Rightarrow> (error + nat) \<times> world" where
  "Album_new w album_info =
     (case and_then (subscript album_info ''id'') cache_key of
        Inl e \<Rightarrow> (Inl e, w)
      | Inr album_id \<Rightarrow>
          (case album_cache w album_id of
             Some a \<Rightarrow> (Inr a, w)
           | None \<Rightarrow>
               (Inr (next_ref w),
                w\<lparr>album_cache := (album_cache w)(album_id \<mapsto> next_ref w),
                  heap := (heap w)(next_ref w \<mapsto> Map.empty),
                  next_ref := Suc (next_ref w)\<rparr>)))"

definition Album_init_body :: "env \<Rightarrow> pyval \<Rightarrow> step" where
  "Album_init_body E album_info =
     cond (py_in ''error'' album_info)
       (raise (api_error album_info))
       (seqs
         [assign ''artist'' (subscript2 album_info ''artist'' ''name''),
          assign ''basic_tracks_data'' (subscript2 album_info ''tracks'' ''data''),
          assign ''cover_small_link'' (subscript album_info ''cover_small''),
          assign ''cover_medium_link'' (subscript album_info ''cover_medium''),
          assign ''cover_big_link'' (subscript album_info ''cover_big''),
          assign ''cover_xl_link'' (subscript album_info ''cover_xl''),
          assign ''duration'' (subscript album_info ''duration''),
          assign ''genres'' (and_then (subscript2 album_info ''genres'' ''data'') names_of),
          assign ''id'' (subscript album_info ''id''),
          assign ''label'' (subscript album_info ''label''),
          assign ''link'' (subscript album_info ''link''),
          assign ''record_type'' (subscript album_info ''record_type''),
          assign ''release_date''
            (and_then (subscript album_info ''release_date'') (strptime E)),
          assign ''title'' (subscript album_info ''title''),
          assign ''total_tracks'' (subscript album_info ''nb_tracks''),
          assign ''upc'' (subscript album_info ''upc'')])"

definition Album_init :: "env \<Rightarrow> world \<Rightarrow> nat \<Rightarrow> pyval \<Rightarrow> (error + unit) \<times> world" where
  "Album_init E w self album_info = run_on w self (Album_init_body E album_info)"

definition Album :: "env \<Rightarrow> world \<Rightarrow> pyval \<Rightarrow> (error + nat) \<times> world" where
  "Album E w album_info =
     (case Album_new w album_info of
        (Inl e, w1) \<Rightarrow> (Inl e, w1)
      | (Inr self, w1) \<Rightarrow>
          (case Album_init E w1 self album_info of
             (Inl e, w2) \<Rightarrow> (Inl e, w2)
           | (Inr u, w2) \<Rightarrow> (Inr self, w2)))"

definition init_via_album_id :: "env \<Rightarrow> world \<Rightarrow> int \<Rightarrow> (error + nat) \<times> world" where
  "init_via_album_id E w album_id =
     (case json_get_request E w (''https://api.deezer.com/album/'' @ str_int album_id) of
        (Inl e, w1) \<Rightarrow> (Inl e, w1)
      | (Inr info, w1) \<Rightarrow> Album E w1 info)"

text \<open>\<open>[Track(track_scheme) for track_scheme in self.basic_tracks_data]\<close>: one construction
  after the other, through the same cache.\<close>

fun Track_each :: "env \<Rightarrow> world \<Rightarrow> pyval list \<Rightarrow> (error + nat list) \<times> world" where
  "Track_each E w [] = (Inr [], w)"
| "Track_each E w (x # xs) =
     (case Track E w x of
        (Inl e, w1) \<Rightarrow> (Inl e, w1)
      | (Inr a, w1) \<Rightarrow>
          (case Track_each E w1 xs of
             (Inl e, w2) \<Rightarrow> (Inl e, w2)
           | (Inr as, w2) \<Rightarrow> (Inr (a # as), w2)))"

definition fetch_tracks :: "env \<Rightarrow> world \<Rightarrow> nat \<Rightarrow> (error + nat list) \<times> world" where
  "fetch_tracks E w self =
     (case and_then (getattr (deref w self) ''basic_tracks_data'') py_iter of
        Inl e \<Rightarrow> (Inl e, w)
      | Inr schemes \<Rightarrow> Track_each E w schemes)"

subsection \<open>Observations on the caches\<close>

text \<open>Every binding of the two caches is still there; the key under which a lookup result
  is cached; a provider answer that carries an error and nothing else.\<close>

definition caches_kept :: "world \<Rightarrow> world \<Rightarrow> bool" where
  "caches_kept w w' = (track_cache w \<subseteq>\<^sub>m track_cache w' \<and> album_cache w \<subseteq>\<^sub>m album_cache w')"

definition id_key :: "pyval \<Rightarrow> error + pyval" where
  "id_key info = and_then (subscript info ''id'') cache_key"

definition error_payload :: pyval where
  "error_payload =
     PDict [(''error'', PDict [(''type'', PStr ''DataException''),
                               (''message'', PStr ''no data''), (''code'', PInt 800)])]"

subsection \<open>Observations on hydration\<close>

text \<open>\<open>d.get(k)\<close> on the pairs of a \<open>dict\<close>; and a page-track answer with a list of
  contributors and two writers of the lyrics, given to a track in the store.\<close>

definition dict_get :: "(string \<times> pyval) list \<Rightarrow> string \<Rightarrow> pyval" where
  "dict_get kvs k = (case map_of kvs k of None \<Rightarrow> PNone | Some v \<Rightarrow> v)"

definition page_track_answer :: pyval where
  "page_track_answer =
     PDict [(''DATA'', PDict [(''MD5_ORIGIN'', PStr ''abc123''), (''MEDIA_VERSION'', PStr ''1''),
                              (''SNG_CONTRIBUTORS'', PList []), (''COPYRIGHT'', PStr ''(c)'')]),
            (''LYRICS'', PDict [(''LYRICS_TEXT'', PStr ''la la''),
                                (''LYRICS_WRITERS'', PStr ''A, B'')])]"

definition hydrate_env :: env where
  "hydrate_env = demo_env\<lparr>time := (\<lambda>l. 200),
     json_response := (\<lambda>l. Inr (PDict [(''results'', page_track_answer)]))\<rparr>"

definition hydrate_world :: world where
  "hydrate_world = stale_world\<lparr>heap := [0 \<mapsto> demo_track], next_ref := 1\<rparr>"

text \<open>A page-track answer whose \<open>LYRICS\<close> section has the text and no writers.\<close>

definition no_writers_answer :: pyval where
  "no_writers_answer =
     PDict [(''DATA'', PDict [(''MD5_ORIGIN'', PStr ''abc123''), (''MEDIA_VERSION'', PStr ''1''),
                              (''SNG_CONTRIBUTORS'', PList []), (''COPYRIGHT'', PStr ''(c)'')]),
            (''LYRICS'', PDict [(''LYRICS_TEXT'', PStr ''la la'')])]"

definition no_writers_env :: env where
  "no_writers_env = demo_env\<lparr>time := (\<lambda>l. 200),
     json_response := (\<lambda>l. Inr (PDict [(''results'', no_writers_answer)]))\<rparr>"

subsection \<open>Observations on sharing\<close>

text \<open>The attributes that only \<open>add_more_tags\<close> assigns; and a run in which a track is
  constructed from a lookup result, hydrated, and constructed again from the same
  result.\<close>

definition extended_tags :: "string set" where
  "extended_tags = {''md5_origin'', ''media_version'', ''composer'', ''author'', ''copyright'',
     ''lyrics'', ''lyrics_sync'', ''lyrics_copyrights'', ''lyrics_writers''}"

definition demo_track_info :: pyval where
  "demo_track_info =
     PDict [(''id'', PInt 12345), (''title'', PStr ''Song''), (''title_short'', PStr ''Song''),
            (''isrc'', PStr ''QM1''), (''link'', PStr ''https://www.deezer.com/track/12345''),
            (''duration'', PInt 180), (''track_position'', PInt 1), (''disk_number'', PInt 1),
            (''rank'', PInt 5), (''release_date'', PStr ''2020-01-01''),
            (''preview'', PStr ''https://cdn/p.mp3''), (''bpm'', PInt 120), (''gain'', PInt (- 12)),
            (''contributors'', PList [PDict [(''name'', PStr ''Ann'')]]),
            (''artist'', PDict [(''name'', PStr ''Ann'')]),
            (''album'', PDict [(''id'', PInt 77)])]"

definition share_w1 :: world where
  "share_w1 = snd (Track hydrate_env stale_world demo_track_info)"

definition share_w2 :: world where
  "share_w2 = snd (add_more_tags hydrate_env share_w1 0)"

definition share_w3 :: world where
  "share_w3 = snd (Track hydrate_env share_w2 demo_track_info)"

section \<open>session.py: downloads\<close>

text \<open>
  The loop over \<open>response.content.iter_chunks()\<close>: every chunk is counted and appended to
  the buffer, and when a callback was given a call of it is scheduled with the running
  count and the declared length. The scheduled calls run on their own; the log records
  that they were scheduled.
\<close>

fun iter_chunks :: "bool \<Rightarrow> int \<Rightarrow> bytes list \<Rightarrow> int \<Rightarrow> bytes \<Rightarrow> event list \<Rightarrow> bytes \<times> event list" where
  "iter_chunks progress_callback total_bytes [] current buffer evs = (buffer, evs)"
| "iter_chunks progress_callback total_bytes (data # rest) current buffer evs =
     iter_chunks progress_callback total_bytes rest (current + int (length data)) (buffer @ data)
       (if progress_callback then evs @ [Progress (current + int (length data)) total_bytes] else evs)"

text \<open>
  The first statements of \<open>download_track\<close>, up to the declared length of the answer:
  the client session is opened, the track is given its extended tags, the URL is built
  from them, the GET is sent, and the header is read.
\<close>

definition request_stream :: "env \<Rightarrow> world \<Rightarrow> nat \<Rightarrow> pyval \<Rightarrow> (error + stream \<times> int) \<times> world" where
  "request_stream E w track bitrate =
     (let w0 = update_requests_session w;
          quality = get_quality bitrate
      in case add_more_tags E w0 track of
           (Inl e, w1) \<Rightarrow> (Inl e, w1)
         | (Inr u, w1) \<Rightarrow>
             (case get_stream_url E (deref w1 track) quality of
                Inl e \<Rightarrow> (Inl e, w1)
              | Inr download_url \<Rightarrow>
                  (let w2 = w1\<lparr>log := log w1 @ [Get download_url []]\<rparr>
                   in case stream_response E (log w2) of
                        Inl e \<Rightarrow> (Inl e, w2)
                      | Inr response \<Rightarrow>
                          (case content_length response of
                             Inl e \<Rightarrow> (Inl e, w2)
                           | Inr total_bytes \<Rightarrow> (Inr (response, total_bytes), w2)))))"

text \<open>The number of fallbacks a bitrate still has below it; it decreases along the
  recursion of \<open>download_track\<close>.\<close>

definition steps_left :: "pyval \<Rightarrow> nat" where
  "steps_left bitrate =
     (if bitrate = PStr ''FLAC'' then 3
      else if bitrate = PStr ''MP3_320'' then 2
      else if bitrate = PStr ''MP3_256'' then 1
      else 0)"

text \<open>\<open>progress_callback\<close> is only tested for its truth value and scheduled, so the model
  takes that truth value.\<close>

function download_track :: "env \<Rightarrow> world \<Rightarrow> nat \<Rightarrow> pyval \<Rightarrow> bool \<Rightarrow> (error + bytes) \<times> world" where
  "download_track E w track bitrate progress_callback =
     (case request_stream E w track bitrate of
        (Inl e, w1) \<Rightarrow> (Inl e, w1)
      | (Inr (response, total_bytes), w1) \<Rightarrow>
          if total_bytes = 0 then
            (if bitrate = PStr ''FLAC''
             then download_track E w1 track (PStr ''MP3_320'') progress_callback
             else if bitrate = PStr ''MP3_320''
             then download_track E w1 track (PStr ''MP3_256'') progress_callback
             else if bitrate = PStr ''MP3_256''
             then download_track E w1 track (PStr ''MP3_128'') progress_callback
             else (case getattr (deref w1 track) ''id'' of
                     Inl e \<Rightarrow> (Inl e, w1)
                   | Inr track_id \<Rightarrow> (Inl (DownloadError track_id), w1)))
          else
            (case iter_chunks progress_callback total_bytes (chunks response) 0 [] [] of
               (buffer, evs) \<Rightarrow>
                 (case broken response of
                    Some e \<Rightarrow> (Inl e, w1\<lparr>log := log w1 @ evs\<rparr>)
                  | None \<Rightarrow> (Inr buffer, w1\<lparr>log := log w1 @ evs\<rparr>))))"
  by pat_completeness auto
termination
  by (relation "measure (\<lambda>(E, w, track, bitrate, progress_callback). steps_left bitrate)")
     (auto simp add: steps_left_def)

declare download_track.simps [simp del]

subsection \<open>Observations on a download\<close>

text \<open>
  The requests in a log: a GET, and a POST of the page-track method. What the
  specification says of the fallback: the bitrates are tried from the requested one down
  the chain, each one only after the one before it was answered with a declared length of
  zero, and when the last one is, \<open>DownloadError\<close> is raised with the track's ID. A
  bitrate outside the chain is tried alone.
\<close>

fun is_get :: "event \<Rightarrow> bool" where
  "is_get (Get url params) = True"
| "is_get _ = False"

fun is_page_track_post :: "env \<Rightarrow> event \<Rightarrow> bool" where
  "is_page_track_post E (Post url params json cookies) =
     (map_of params ''method'' = Some (PStr (METHOD_PAGE_TRACK E)))"
| "is_page_track_post E _ = False"

text \<open>How many of each a log holds.\<close>

definition stream_gets :: "event list \<Rightarrow> nat" where
  "stream_gets evs = length (filter is_get evs)"

definition page_track_posts :: "env \<Rightarrow> event list \<Rightarrow> nat" where
  "page_track_posts E evs = length (filter (is_page_track_post E) evs)"

definition chain_from :: "pyval \<Rightarrow> pyval list" where
  "chain_from bitrate =
     (let chain = [PStr ''FLAC'', PStr ''MP3_320'', PStr ''MP3_256'', PStr ''MP3_128'']
      in if bitrate \<in> set chain then dropWhile (\<lambda>b. b \<noteq> bitrate) chain else [bitrate])"

fun fallback_loop :: "env \<Rightarrow> world \<Rightarrow> nat \<Rightarrow> pyval list \<Rightarrow> bool \<Rightarrow> (error + bytes) \<times> world" where
  "fallback_loop E w track [] progress_callback =
     (case getattr (deref w track) ''id'' of
        Inl e \<Rightarrow> (Inl e, w)
      | Inr track_id \<Rightarrow> (Inl (DownloadError track_id), w))"
| "fallback_loop E w track (bitrate # lower) progress_callback =
     (case request_stream E w track bitrate of
        (Inl e, w1) \<Rightarrow> (Inl e, w1)
      | (Inr (response, total_bytes), w1) \<Rightarrow>
          if total_bytes = 0 then fallback_loop E w1 track lower progress_callback
          else
            (case iter_chunks progress_callback total_bytes (chunks response) 0 [] [] of
               (buffer, evs) \<Rightarrow>
                 (case broken response of
                    Some e \<Rightarrow> (Inl e, w1\<lparr>log := log w1 @ evs\<rparr>)
                  | None \<Rightarrow> (Inr buffer, w1\<lparr>log := log w1 @ evs\<rparr>))))"

text \<open>Whether every GET of a log comes directly after a page-track POST; the flag says
  whether the event before the log was one.\<close>

fun hydrated_before :: "env \<Rightarrow> bool \<Rightarrow> event list \<Rightarrow> bool" where
  "hydrated_before E h [] = True"
| "hydrated_before E h (e # es) =
     ((if is_get e then h else True) \<and> hydrated_before E (is_page_track_post E e) es)"

text \<open>A provider that has the page-track answer but no audio at any bitrate.\<close>

definition empty_stream :: stream where
  "empty_stream = \<lparr> content_length = Inr 0, chunks = [], broken = None \<rparr>"

definition no_audio_env :: env where
  "no_audio_env = hydrate_env\<lparr>stream_response := (\<lambda>l. Inr empty_stream)\<rparr>"

text \<open>A provider that has no audio for the first GET of a session and three bytes, in two
  chunks, for every later one.\<close>

definition audio_stream :: stream where
  "audio_stream = \<lparr> content_length = Inr 3, chunks = [''ab'', ''c''], broken = None \<rparr>"

definition second_try_env :: env where
  "second_try_env =
     hydrate_env\<lparr>stream_response :=
       (\<lambda>l. if stream_gets l < 2 then Inr empty_stream else Inr audio_stream)\<rparr>"

section \<open>session.py: the search\<close>

text \<open>
  \<open>xs[:n]\<close> for an \<open>int\<close> \<open>n\<close>: the first \<open>n\<close> elements, and for a negative \<open>n\<close> all but the
  last \<open>-n\<close>. A \<open>list\<close> and a \<open>str\<close> can be sliced; the other values of a decoded JSON
  document cannot.
\<close>

definition slice_to :: "int \<Rightarrow> 'a list \<Rightarrow> 'a list" where
  "slice_to n xs = (if 0 \<le> n then take (nat n) xs else take (nat (int (length xs) + n)) xs)"

fun py_slice_to :: "pyval \<Rightarrow> int \<Rightarrow> error + pyval" where
  "py_slice_to (PList xs) n = Inr (PList (slice_to n xs))"
| "py_slice_to (PStr s) n = Inr (PStr (slice_to n s))"
| "py_slice_to _ n = Inl TypeError"

text \<open>The two searches on the public API, each a GET with the query as its parameter.\<close>

definition find_albums :: "env \<Rightarrow> world \<Rightarrow> string \<Rightarrow> (error + pyval) \<times> world" where
  "find_albums E w name =
     (let w1 = w\<lparr>log := log w @ [Get (LEGACY_API_URL E @ ''search/album'') [(''q'', name)]]\<rparr>
      in (and_then (json_response E (log w1)) (\<lambda>albums. subscript albums ''data''), w1))"

definition find_tracks :: "env \<Rightarrow> world \<Rightarrow> string \<Rightarrow> (error + pyval) \<times> world" where
  "find_tracks E w name =
     (let w1 = w\<lparr>log := log w @ [Get (LEGACY_API_URL E @ ''search'') [(''q'', name)]]\<rparr>
      in (and_then (json_response E (log w1)) (\<lambda>tracks. subscript tracks ''data''), w1))"

text \<open>The \<open>dict\<close> displays of the two comprehensions; the entries are evaluated in the
  order they are written.\<close>

definition album_summary :: "pyval \<Rightarrow> error + pyval" where
  "album_summary element =
     and_then (subscript element ''title'') (\<lambda>album_title.
     and_then (subscript2 element ''artist'' ''name'') (\<lambda>singer_name.
     and_then (subscript element ''cover_medium'') (\<lambda>album_photo_medium.
     and_then (subscript element ''link'') (\<lambda>link.
       Inr (PDict [(''album_title'', album_title), (''singer_name'', singer_name),
                   (''album_photo_medium'', album_photo_medium), (''link'', link)])))))"

definition track_summary :: "pyval \<Rightarrow> error + pyval" where
  "track_summary element =
     and_then (subscript element ''title'') (\<lambda>music_title.
     and_then (subscript2 element ''artist'' ''name'') (\<lambda>singer_name.
     and_then (subscript2 element ''album'' ''title'') (\<lambda>album_title.
     and_then (subscript2 element ''album'' ''cover_medium'') (\<lambda>album_photo_medium.
     and_then (subscript element ''link'') (\<lambda>link.
       Inr (PDict [(''music_title'', music_title), (''singer_name'', singer_name),
                   (''album_title'', album_title),
                   (''album_photo_medium'', album_photo_medium), (''link'', link)]))))))"

text \<open>
  \<open>asyncio.gather\<close> starts both searches before either is answered, so both GETs are
  sent whatever the answers are. Of two exceptions the model raises that of the album
  search.
\<close>

definition search_songs ::
    "env \<Rightarrow> world \<Rightarrow> string \<Rightarrow> int \<Rightarrow> int \<Rightarrow> (error + pyval list \<times> pyval list) \<times> world" where
  "search_songs E w name albums_count songs_limit =
     (let w0 = update_requests_session w
      in case find_albums E w0 name of
           (a, w1) \<Rightarrow>
             (case find_tracks E w1 name of
                (t, w2) \<Rightarrow>
                  (and_then a (\<lambda>albums.
                   and_then t (\<lambda>tracks.
                   and_then (py_slice_to albums albums_count) (\<lambda>albums.
                   and_then (py_slice_to tracks (songs_limit - albums_count)) (\<lambda>tracks.
                   and_then (and_then (py_iter albums) (map_result album_summary)) (\<lambda>albums.
                   and_then (and_then (py_iter tracks) (map_result track_summary)) (\<lambda>tracks.
                     Inr (albums, tracks))))))),
                   w2)))"

subsection \<open>Observations on a search\<close>

text \<open>A provider with ten albums and ten tracks for every query, and what the search
  makes of the album and of the track of a number.\<close>

definition demo_album :: "int \<Rightarrow> pyval" where
  "demo_album i =
     PDict [(''title'', PStr (''Album '' @ str_int i)), (''artist'', PDict [(''name'', PStr ''Ann'')]),
            (''cover_medium'', PStr ''https://cdn/cover.jpg''),
            (''link'', PStr (''https://www.deezer.com/album/'' @ str_int i))]"

definition demo_song :: "int \<Rightarrow> pyval" where
  "demo_song i =
     PDict [(''title'', PStr (''Song '' @ str_int i)), (''artist'', PDict [(''name'', PStr ''Ann'')]),
            (''album'', PDict [(''title'', PStr ''Album 1''),
                               (''cover_medium'', PStr ''https://cdn/cover.jpg'')]),
            (''link'', PStr (''https://www.deezer.com/track/'' @ str_int i))]"

definition demo_album_row :: "int \<Rightarrow> pyval" where
  "demo_album_row i =
     PDict [(''album_title'', PStr (''Album '' @ str_int i)), (''singer_name'', PStr ''Ann''),
            (''album_photo_medium'', PStr ''https://cdn/cover.jpg''),
            (''link'', PStr (''https://www.deezer.com/album/'' @ str_int i))]"

definition demo_song_row :: "int \<Rightarrow> pyval" where
  "demo_song_row i =
     PDict [(''music_title'', PStr (''Song '' @ str_int i)), (''singer_name'', PStr ''Ann''),
            (''album_title'', PStr ''Album 1''),
            (''album_photo_medium'', PStr ''https://cdn/cover.jpg''),
            (''link'', PStr (''https://www.deezer.com/track/'' @ str_int i))]"

definition search_env :: env where
  "search_env =
     demo_env\<lparr>json_response :=
       (\<lambda>l. if l \<noteq> [] \<and> last l = Get ''https://api.deezer.com/search/album'' [(''q'', ''ann'')]
            then Inr (PDict [(''data'', PList (map demo_album [1, 2, 3, 4, 5, 6, 7, 8, 9, 10]))])
            else Inr (PDict [(''data'', PList (map demo_song [1, 2, 3, 4, 5, 6, 7, 8, 9, 10]))]))\<rparr>"

section \<open>Properties\<close>

subsection \<open>Evaluation on literals\<close>

lemma replicate_numeral: "replicate (numeral k) x = x # replicate (pred_numeral k) x"
  by (simp add: numeral_eq_Suc)


subsection \<open>The quality codes\<close>

text \<open>
  C7. \<open>get_quality\<close> maps the label FLAC to the code 9, MP3\_320 to 3, MP3\_256 to 5, and
  MP3\_128 as well as every other string to 1.
\<close>

theorem get_quality_codes:
  "get_quality (PStr ''FLAC'') = ''9'' \<and>
   get_quality (PStr ''MP3_320'') = ''3'' \<and>
   get_quality (PStr ''MP3_256'') = ''5'' \<and>
   get_quality (PStr ''MP3_128'') = ''1'' \<and>
   (\<forall>s. s \<noteq> ''FLAC'' \<and> s \<noteq> ''MP3_320'' \<and> s \<noteq> ''MP3_256'' \<longrightarrow> get_quality (PStr s) = ''1'')"
  by (simp add: get_quality_def)

theorem get_quality_codes_witness:
  "''MP3'' \<noteq> ''FLAC'' \<and> ''MP3'' \<noteq> ''MP3_320'' \<and> ''MP3'' \<noteq> ''MP3_256'' \<and>
   get_quality (PStr ''MP3'') = ''1''"
proof -
  have other: "''MP3'' \<noteq> ''FLAC'' \<and> ''MP3'' \<noteq> ''MP3_320'' \<and> ''MP3'' \<noteq> ''MP3_256''"
    by simp
  note rest = get_quality_codes [THEN conjunct2, THEN conjunct2, THEN conjunct2, THEN conjunct2]
  have "get_quality (PStr ''MP3'') = ''1''"
    by (rule rest [rule_format, OF other])
  with other show ?thesis by simp
qed

subsection \<open>The stream URL\<close>

lemma pad16_length: "length (p @ replicate ((16 - length p mod 16) mod 16) c) mod 16 = 0"
  by (simp add: mod_simps) presburger

lemma pad16_if:
  "(if length d mod 16 \<noteq> 0 then d @ replicate (16 - length d mod 16) c else d) =
   d @ replicate ((16 - length d mod 16) mod 16) c"
  by simp

lemma hex_digit_ascii:
  assumes "d < 16"
  shows "(of_char (hex_digit d) :: nat) < 128"
proof -
  have "hex_digit d \<in> set ''0123456789abcdef''"
    unfolding hex_digit_def using assms by (intro nth_mem) (simp add: eval_nat_numeral)
  then show ?thesis by auto
qed

lemma utf8_char_ascii: "(of_char c :: nat) < 128 \<Longrightarrow> utf8_char c = [c]"
  by (simp add: utf8_char_def)

lemma encode_ascii: "\<forall>c \<in> set s. (of_char c :: nat) < 128 \<Longrightarrow> encode s = s"
  by (induction s) (simp_all add: encode_def utf8_char_ascii)

lemma nibbles_less: "(of_char b :: nat) div 16 < 16" "(of_char b :: nat) mod 16 < 16"
proof -
  have "(of_char b :: nat) < 16 * 16" using nat_of_char_less_256 [of b] by simp
  then show "(of_char b :: nat) div 16 < 16" by (rule less_mult_imp_div_less)
  show "(of_char b :: nat) mod 16 < 16" by simp
qed

lemma b2a_hex_ascii: "\<forall>c \<in> set (b2a_hex bs). (of_char c :: nat) < 128"
  by (induction bs) (simp_all add: b2a_hex_def hex_digit_ascii nibbles_less)

lemma encode_b2a_hex: "encode (b2a_hex bs) = b2a_hex bs"
  by (rule encode_ascii) (rule b2a_hex_ascii)

lemma encode_key: "encode ''jo6aey6haid2Teih'' = ''jo6aey6haid2Teih''"
  by (simp add: encode_def utf8_char_def)

text \<open>
  C1, amended. For a track whose origin hash is a non-empty \<open>str\<close>, whose media version
  is a \<open>str\<close> and whose ID is an \<open>int\<close>, and for every quality code, \<open>get_stream_url\<close>
  returns the URL built as follows. The four fields origin hash, quality code, decimal
  track ID and media version are encoded and joined by the byte \<open>0xA4\<close>; the hexadecimal
  MD5 digest of that and one more \<open>0xA4\<close> go in front, another \<open>0xA4\<close> behind; zero bytes
  fill the result up to a multiple of 16; each block of 16 bytes is encrypted with the
  key \<open>jo6aey6haid2Teih\<close>; and the hexadecimal digits of the ciphertext end a URL whose
  host carries the first character of the origin hash.
\<close>

theorem get_stream_url_layout:
  assumes "track ''md5_origin'' = Some (PStr h)" "track ''id'' = Some (PInt n)"
    "track ''media_version'' = Some (PStr v)" "h \<noteq> []"
  shows "(let body = encode h @ [CHR 0xA4] @ encode quality @ [CHR 0xA4] @
                     encode (str_int n) @ [CHR 0xA4] @ encode v;
              plain = b2a_hex (md5_digest E body) @ [CHR 0xA4] @ body @ [CHR 0xA4];
              padded = plain @ replicate ((16 - length plain mod 16) mod 16) (CHR 0x00)
          in length padded mod 16 = 0 \<and>
             get_stream_url E track quality =
               Inr (''http://e-cdn-proxy-'' @ [hd h] @ ''.dzcdn.net/api/1/'' @
                    b2a_hex (concat (map (aes_encrypt_block E ''jo6aey6haid2Teih'')
                                         (blocks16 padded)))))"
proof -
  define body where "body = encode h @ [CHR 0xA4] @ encode quality @ [CHR 0xA4] @ encode (str_int n) @ [CHR 0xA4] @ encode v"
  define plain where "plain = b2a_hex (md5_digest E body) @ [CHR 0xA4] @ body @ [CHR 0xA4]"
  define padded where "padded = plain @ replicate ((16 - length plain mod 16) mod 16) (CHR 0x00)"
  have len: "length padded mod 16 = 0"
    unfolding padded_def by (rule pad16_length)
  have parts: "encode_all [PStr h, PStr quality, PStr (py_str E (PInt n)), PStr v] =
      Inr [encode h, encode quality, encode (str_int n), encode v]"
    by (simp add: and_then_def py_str_def)
  have joined: "join [CHR 0xA4] [encode h, encode quality, encode (str_int n), encode v] = body"
    by (simp add: body_def)
  have data: "join [CHR 0xA4] [md5hex E body, body] @ [CHR 0xA4] = plain"
    by (simp add: plain_def md5hex_def encode_b2a_hex)
  have pad: "(if length plain mod 16 \<noteq> 0
       then plain @ replicate (16 - length plain mod 16) (CHR 0x00) else plain) = padded"
    unfolding padded_def by (rule pad16_if)
  have enc: "ecb_encrypt E (encode ''jo6aey6haid2Teih'') padded =
      Inr (concat (map (aes_encrypt_block E ''jo6aey6haid2Teih'') (blocks16 padded)))"
    using len by (simp add: ecb_encrypt_def encode_key)
  from \<open>h \<noteq> []\<close> have first: "first_char (PStr h) = Inr [hd h]"
    by (cases h) simp_all
  have "get_stream_url E track quality =
      Inr (''http://e-cdn-proxy-'' @ [hd h] @ ''.dzcdn.net/api/1/'' @
           b2a_hex (concat (map (aes_encrypt_block E ''jo6aey6haid2Teih'') (blocks16 padded))))"
    unfolding get_stream_url_def getattr_def assms(1-3) option.case
    by (simp only: and_then_def sum.case parts joined Let_def data pad enc first)
  with len show ?thesis
    unfolding Let_def body_def [symmetric] plain_def [symmetric] padded_def [symmetric] by simp
qed

theorem get_stream_url_layout_witness:
  "demo_track ''md5_origin'' = Some (PStr ''abc123'') \<and>
   demo_track ''id'' = Some (PInt 12345) \<and>
   demo_track ''media_version'' = Some (PStr ''1'') \<and> ''abc123'' \<noteq> [] \<and>
   get_stream_url demo_env demo_track ''3'' = Inr ''http://e-cdn-proxy-a.dzcdn.net/api/1/3030303030303030303030303030303030303030303030303030303030303030a4616263313233a433a43132333435a431a40000000000000000000000000000''"
proof -
  have h1: "demo_track ''md5_origin'' = Some (PStr ''abc123'')"
    and h2: "demo_track ''id'' = Some (PInt 12345)"
    and h3: "demo_track ''media_version'' = Some (PStr ''1'')"
    and h4: "''abc123'' \<noteq> []"
    by (simp_all add: demo_track_def)
  note url = get_stream_url_layout [OF h1 h2 h3 h4, where E = demo_env and quality = "''3''", unfolded Let_def, THEN conjunct2]
  have "get_stream_url demo_env demo_track ''3'' = Inr ''http://e-cdn-proxy-a.dzcdn.net/api/1/3030303030303030303030303030303030303030303030303030303030303030a4616263313233a433a43132333435a431a40000000000000000000000000000''"
    unfolding url
    by (simp add: demo_env_def str_int_def str_nat.simps digit_char_def encode_def utf8_char_def b2a_hex_def hex_digit_def blocks16.simps replicate_numeral)
  with h1 h2 h3 h4 show ?thesis by simp
qed

text \<open>
  C1 as stated reaches every track with a set origin hash, the empty string included.
  There the plaintext is built and encrypted, and then \<open>track.md5_origin[0]\<close> raises
  \<open>IndexError\<close>: no URL is returned.
\<close>

theorem get_stream_url_empty_origin:
  "get_stream_url demo_env
     [''md5_origin'' \<mapsto> PStr [], ''id'' \<mapsto> PInt 12345, ''media_version'' \<mapsto> PStr ''1''] ''3''
   = Inl IndexError"
  by (simp add: get_stream_url_def getattr_def and_then_def Let_def py_str_def ecb_encrypt_def
      md5hex_def demo_env_def str_int_def str_nat.simps digit_char_def encode_def utf8_char_def
      b2a_hex_def hex_digit_def replicate_numeral)

subsection \<open>When the session refreshes\<close>

lemma get_api_direct:
  assumes "meth = METHOD_GET_USER E \<or>
           (truthy (csrf_token w) \<and> session_expires w \<le> time E (log w))"
  shows "get_api E w meth body =
     (and_then (json_response E (log w @ [api_post E w meth body]))
        (\<lambda>response. subscript response ''results''),
      w\<lparr>client_open := True, log := log w @ [api_post E w meth body]\<rparr>)"
  using assms
  by (auto simp add: get_api.simps [of E w meth body] Let_def update_requests_session_def
      api_post_def)

lemma new_events_append [simp]: "new_events w (w'\<lparr>log := log w @ evs\<rparr>) = evs"
  by (simp add: new_events_def)

lemma get_api_extends: "\<exists>evs. log (snd (get_api E w meth body)) = log w @ evs"
  and refresh_session_extends: "\<exists>evs. log (snd (refresh_session E w)) = log w @ evs"
proof (induction E w meth body and E w rule: get_api_refresh_session.induct)
  case (1 E w meth body)
  show ?case
  proof (cases "meth \<noteq> METHOD_GET_USER E \<and>
               (\<not> truthy (csrf_token w) \<or> session_expires w > time E (log w))")
    case True
    with 1 obtain evs where evs: "log (snd (refresh_session E w)) = log w @ evs" by blast
    obtain r w1 where rw: "refresh_session E w = (r, w1)" by (cases "refresh_session E w")
    with evs have "log w1 = log w @ evs" by simp
    with True rw show ?thesis
      by (cases r) (auto simp add: get_api.simps [of E w meth body] Let_def
          update_requests_session_def)
  next
    case False
    then show ?thesis
      by (auto simp add: get_api.simps [of E w meth body] Let_def update_requests_session_def)
  qed
next
  case (2 E w)
  then obtain evs where evs: "log (snd (get_api E w (METHOD_GET_USER E) PNone)) = log w @ evs"
    by blast
  obtain r w1 where rw: "get_api E w (METHOD_GET_USER E) PNone = (r, w1)"
    by (cases "get_api E w (METHOD_GET_USER E) PNone")
  with evs have "log w1 = log w @ evs" by simp
  with rw show ?case
    by (auto simp add: refresh_session.simps [of E w] split: sum.splits)
qed


lemma is_refresh_post_api_post [simp]:
  "is_refresh_post E (api_post E w meth body) = (meth = METHOD_GET_USER E)"
  by (simp add: api_post_def)

lemma refresh_session_log:
  "log (snd (refresh_session E w)) = log w @ [api_post E w (METHOD_GET_USER E) PNone]"
  by (simp add: refresh_session.simps [of E w] get_api_direct split: sum.splits)

lemma get_api_after_refresh:
  assumes "meth \<noteq> METHOD_GET_USER E"
    and "\<not> truthy (csrf_token w) \<or> time E (log w) < session_expires w"
  shows "new_events w (snd (get_api E w meth body)) =
           api_post E w (METHOD_GET_USER E) PNone #
           (case fst (refresh_session E w) of
              Inl e \<Rightarrow> []
            | Inr u \<Rightarrow> [api_post E (snd (refresh_session E w)) meth body])"
proof -
  obtain r w1 where rw: "refresh_session E w = (r, w1)" by (cases "refresh_session E w")
  with refresh_session_log [of E w]
  have w1: "log w1 = log w @ [api_post E w (METHOD_GET_USER E) PNone]" by simp
  from assms rw w1 show ?thesis
    by (cases r) (simp_all add: get_api.simps [of E w meth body] Let_def
        update_requests_session_def api_post_def new_events_def)
qed

text \<open>
  C2. The claim is that \<open>get_api\<close>, for a method other than the identity lookup,
  refreshes exactly when the token is absent or the clock has reached the stored expiry.
  The code compares the other way round: it refreshes exactly when the token is absent
  or the expiry still lies ahead, so an expired token is sent as it is.
\<close>

theorem get_api_refresh_condition:
  assumes "meth \<noteq> METHOD_GET_USER E"
  shows "list_ex (is_refresh_post E) (new_events w (snd (get_api E w meth body))) =
         (\<not> truthy (csrf_token w) \<or> time E (log w) < session_expires w)"
proof (cases "\<not> truthy (csrf_token w) \<or> time E (log w) < session_expires w")
  case True
  with assms show ?thesis by (simp add: get_api_after_refresh)
next
  case False
  then have "truthy (csrf_token w) \<and> session_expires w \<le> time E (log w)" by auto
  then have "get_api E w meth body =
     (and_then (json_response E (log w @ [api_post E w meth body]))
        (\<lambda>response. subscript response ''results''),
      w\<lparr>client_open := True, log := log w @ [api_post E w meth body]\<rparr>)"
    by (intro get_api_direct) simp
  with assms False show ?thesis by simp
qed

theorem get_api_refresh_condition_witness:
  "''deezer.pageTrack'' \<noteq> METHOD_GET_USER stale_env \<and>
   truthy (csrf_token stale_world) \<and>
   session_expires stale_world \<le> time stale_env (log stale_world) \<and>
   \<not> list_ex (is_refresh_post stale_env)
       (new_events stale_world (snd (get_api stale_env stale_world ''deezer.pageTrack'' PNone)))"
proof -
  have m: "''deezer.pageTrack'' \<noteq> METHOD_GET_USER stale_env"
    by (simp add: stale_env_def demo_env_def)
  have t: "truthy (csrf_token stale_world)"
    and e: "session_expires stale_world \<le> time stale_env (log stale_world)"
    by (simp_all add: stale_world_def stale_env_def Session_init_def)
  from get_api_refresh_condition [OF m, of stale_world PNone] t e
  have "\<not> list_ex (is_refresh_post stale_env)
       (new_events stale_world (snd (get_api stale_env stale_world ''deezer.pageTrack'' PNone)))"
    by simp
  with m t e show ?thesis by simp
qed

subsection \<open>A lookup that the provider answers with an error\<close>

lemma Track_without_id:
  assumes "subscript info ''id'' = Inl e"
  shows "Track E w info = (Inl e, w)"
  using assms by (simp add: Track_def Track_new_def and_then_def)

lemma Album_without_id:
  assumes "subscript info ''id'' = Inl e"
  shows "Album E w info = (Inl e, w)"
  using assms by (simp add: Album_def Album_new_def and_then_def)

text \<open>
  C4. The claim is that an answer with an error payload makes the construction of a
  \<open>Track\<close> or an \<open>Album\<close> raise \<open>DeezerApiError\<close> with the provider's type, message
  and code, and that nothing is cached. The code looks up \<open>info["id"]\<close> in \<open>__new__\<close>,
  before \<open>__init__\<close> tests for the error: an answer without an ID, as the provider's
  error answers are, raises \<open>KeyError\<close> instead.
\<close>

theorem error_payload_raises_KeyError:
  assumes "map_of kvs ''id'' = None"
  shows "Track E w (PDict kvs) = (Inl (KeyError ''id''), w) \<and>
         Album E w (PDict kvs) = (Inl (KeyError ''id''), w)"
  using assms by (simp add: Track_without_id Album_without_id)

theorem error_payload_raises_KeyError_witness:
  "Track demo_env (Session_init ''arl'') error_payload =
     (Inl (KeyError ''id''), Session_init ''arl'') \<and>
   Album demo_env (Session_init ''arl'') error_payload =
     (Inl (KeyError ''id''), Session_init ''arl'')"
  unfolding error_payload_def
  by (rule error_payload_raises_KeyError) simp

text \<open>An answer that carries both an ID and an error does raise \<open>DeezerApiError\<close>, after
  \<open>__new__\<close> has cached an instance without attributes under that ID.\<close>

lemma error_payload_with_id_is_cached:
  assumes "track_cache w (PInt n) = None"
  shows "\<exists>w'. Track E w (PDict [(''id'', PInt n), (''error'', PDict [(''type'', t), (''message'', m), (''code'', c)])])
            = (Inl (DeezerApiError t m c), w') \<and> track_cache w' (PInt n) = Some (next_ref w)"
  using assms
  by (simp add: Track_def Track_new_def and_then_def Track_init_def run_on_def Track_init_body_def
      cond_def raise_def api_error_def subscript2_def)

subsection \<open>Hydrating the extended tags\<close>

lemma seqs_Nil_ok: "seqs [] ob = (None, ob') \<longleftrightarrow> ob' = ob"
  by auto

lemma seqs_Cons_ok:
  "seqs (s # ss) ob = (None, ob') \<longleftrightarrow> (\<exists>ob1. s ob = (None, ob1) \<and> seqs ss ob1 = (None, ob'))"
  by (cases "s ob") (auto split: option.splits)

lemma assign_ok: "assign n rhs ob = (None, ob') \<longleftrightarrow> (\<exists>v. rhs = Inr v \<and> ob' = ob(n \<mapsto> v))"
  by (cases rhs) (auto simp add: assign_def)

lemma cond_ok:
  "cond c s1 s2 ob = (None, ob') \<longleftrightarrow>
     (\<exists>b. c = Inr b \<and> (if b then s1 ob else s2 ob) = (None, ob'))"
  by (cases c) (auto simp add: cond_def)

lemma and_then_Inr: "and_then m f = Inr v \<longleftrightarrow> (\<exists>x. m = Inr x \<and> f x = Inr v)"
  by (cases m) (simp_all add: and_then_def)

lemma subscript_Inr: "subscript d k = Inr v \<longleftrightarrow> (\<exists>kvs. d = PDict kvs \<and> map_of kvs k = Some v)"
  by (cases d) (auto split: option.splits)

lemma py_get_Inr: "py_get d k = Inr v \<longleftrightarrow> (\<exists>kvs. d = PDict kvs \<and> v = dict_get kvs k)"
  by (cases d) (auto simp add: dict_get_def split: option.splits)

lemma py_split_Inr:
  "py_split x = Inr v \<longleftrightarrow> (\<exists>s. x = PStr s \<and> v = PList (map PStr (split_comma_space s)))"
  by (cases x) auto

lemma py_in_keys_Inr: "py_in_keys k d = Inr b \<longleftrightarrow> (\<exists>kvs. d = PDict kvs \<and> b = (k \<in> fst ` set kvs))"
  by (cases d) auto

lemmas steps_ok = seqs_Cons_ok seqs_Nil_ok assign_ok cond_def

lemma contributors_step_ok:
  assumes "contributors_step r ob = (None, ob')"
  shows "\<exists>c. subscript2 r ''DATA'' ''SNG_CONTRIBUTORS'' = Inr c \<and>
           (is_list c \<and> ob' = ob(''composer'' \<mapsto> PNone, ''author'' \<mapsto> PNone) \<or>
            (\<exists>kvs. c = PDict kvs \<and>
               ob' = ob(''composer'' \<mapsto> dict_get kvs ''composer'',
                        ''author'' \<mapsto> dict_get kvs ''author'')))"
proof -
  from assms obtain x where x: "subscript2 r ''DATA'' ''SNG_CONTRIBUTORS'' = Inr x"
    unfolding contributors_step_def cond_ok and_then_Inr by blast
  show ?thesis
  proof (cases "is_list x")
    case True
    with assms x have "ob' = ob(''composer'' \<mapsto> PNone, ''author'' \<mapsto> PNone)"
      by (simp add: contributors_step_def steps_ok and_then_def del: seqs.simps)
    with True x show ?thesis by simp
  next
    case False
    with assms x obtain kvs where "x = PDict kvs"
      and "ob' = ob(''composer'' \<mapsto> dict_get kvs ''composer'', ''author'' \<mapsto> dict_get kvs ''author'')"
      by (auto simp add: contributors_step_def steps_ok and_then_def py_get_Inr
          simp del: seqs.simps)
    with x show ?thesis by simp
  qed
qed

lemma lyrics_step_ok:
  assumes "lyrics_step r ob = (None, ob')"
  shows "\<exists>rkv. r = PDict rkv \<and>
           (''LYRICS'' \<notin> fst ` set rkv \<and>
              ob' = ob(''lyrics'' \<mapsto> PNone, ''lyrics_sync'' \<mapsto> PNone,
                       ''lyrics_copyrights'' \<mapsto> PNone, ''lyrics_writers'' \<mapsto> PNone) \<or>
            ''LYRICS'' \<in> fst ` set rkv \<and>
            (\<exists>l ws. map_of rkv ''LYRICS'' = Some (PDict l) \<and>
               map_of l ''LYRICS_WRITERS'' = Some (PStr ws) \<and>
               ob' = ob(''lyrics'' \<mapsto> dict_get l ''LYRICS_TEXT'',
                        ''lyrics_sync'' \<mapsto> dict_get l ''LYRICS_SYNC_JSON'',
                        ''lyrics_copyrights'' \<mapsto> dict_get l ''LYRICS_COPYRIGHTS'',
                        ''lyrics_writers'' \<mapsto> PList (map PStr (split_comma_space ws)))))"
proof -
  from assms obtain rkv where r: "r = PDict rkv"
    unfolding lyrics_step_def cond_ok py_in_keys_Inr by blast
  show ?thesis
  proof (cases "''LYRICS'' \<in> fst ` set rkv")
    case False
    with assms r
    have "ob' = ob(''lyrics'' \<mapsto> PNone, ''lyrics_sync'' \<mapsto> PNone,
                   ''lyrics_copyrights'' \<mapsto> PNone, ''lyrics_writers'' \<mapsto> PNone)"
      by (simp add: lyrics_step_def steps_ok del: seqs.simps)
    with r False show ?thesis by simp
  next
    case True
    from True have "map_of rkv ''LYRICS'' \<noteq> None"
      by (simp add: map_of_eq_None_iff)
    then obtain v where v: "map_of rkv ''LYRICS'' = Some v"
      by auto
    with assms r True obtain l where l: "v = PDict l"
      by (auto simp add: lyrics_step_def steps_ok and_then_def py_get_Inr
          simp del: seqs.simps)
    with assms r True v obtain ws where "map_of l ''LYRICS_WRITERS'' = Some (PStr ws)"
      and "ob' = ob(''lyrics'' \<mapsto> dict_get l ''LYRICS_TEXT'',
                        ''lyrics_sync'' \<mapsto> dict_get l ''LYRICS_SYNC_JSON'',
                        ''lyrics_copyrights'' \<mapsto> dict_get l ''LYRICS_COPYRIGHTS'',
                        ''lyrics_writers'' \<mapsto> PList (map PStr (split_comma_space ws)))"
      by (auto simp add: lyrics_step_def steps_ok and_then_def py_split_Inr
          dict_get_def simp del: seqs.simps split: option.splits)
    with r True l v show ?thesis by simp
  qed
qed

lemma run_on_ok:
  assumes "run_on w self body = (Inr u, w')"
  shows "body (deref w self) = (None, deref w' self) \<and> w' = w\<lparr>heap := (heap w)(self \<mapsto> deref w' self)\<rparr>"
  using assms by (auto simp add: run_on_def deref_def split: prod.splits option.splits)

text \<open>
  C8, amended. When \<open>add_more_tags\<close> returns, \<open>r\<close> being the answer to its page-track request: the
  contributors are a \<open>list\<close> or a \<open>dict\<close>; for a list \<open>composer\<close> and \<open>author\<close> are
  \<open>None\<close>, for a dict they are its entries of those names (\<open>None\<close> for a missing one).
  Without a \<open>LYRICS\<close> section the four lyrics attributes are \<open>None\<close>; with one they are
  its entries, the writers being the pieces of the writer string between the
  occurrences of a comma followed by a space.
\<close>

theorem add_more_tags_sets:
  assumes id: "getattr (deref w self) ''id'' = Inr tid"
    and api: "get_api E w (METHOD_PAGE_TRACK E) (PDict [(''sng_id'', tid)]) = (Inr r, w1)"
    and ok: "add_more_tags E w self = (Inr u, w')"
  shows "\<exists>c rkv.
           subscript2 r ''DATA'' ''SNG_CONTRIBUTORS'' = Inr c \<and> r = PDict rkv \<and>
           (is_list c \<or> (\<exists>kvs. c = PDict kvs)) \<and>
           (is_list c \<longrightarrow>
              deref w' self ''composer'' = Some PNone \<and> deref w' self ''author'' = Some PNone) \<and>
           (\<forall>kvs. c = PDict kvs \<longrightarrow>
              deref w' self ''composer'' = Some (dict_get kvs ''composer'') \<and>
              deref w' self ''author'' = Some (dict_get kvs ''author'')) \<and>
           (''LYRICS'' \<notin> fst ` set rkv \<longrightarrow>
              deref w' self ''lyrics'' = Some PNone \<and>
              deref w' self ''lyrics_sync'' = Some PNone \<and>
              deref w' self ''lyrics_copyrights'' = Some PNone \<and>
              deref w' self ''lyrics_writers'' = Some PNone) \<and>
           (''LYRICS'' \<in> fst ` set rkv \<longrightarrow>
              (\<exists>l ws. map_of rkv ''LYRICS'' = Some (PDict l) \<and>
                 map_of l ''LYRICS_WRITERS'' = Some (PStr ws) \<and>
                 deref w' self ''lyrics'' = Some (dict_get l ''LYRICS_TEXT'') \<and>
                 deref w' self ''lyrics_sync'' = Some (dict_get l ''LYRICS_SYNC_JSON'') \<and>
                 deref w' self ''lyrics_copyrights'' = Some (dict_get l ''LYRICS_COPYRIGHTS'') \<and>
                 deref w' self ''lyrics_writers'' =
                   Some (PList (map PStr (split_comma_space ws)))))"
proof -
  define t where "t = deref w' self"
  from id api ok have "run_on w1 self (add_more_tags_body r) = (Inr u, w')"
    by (simp add: add_more_tags_def)
  then have "add_more_tags_body r (deref w1 self) = (None, t)"
    unfolding t_def by (simp add: run_on_ok)
  then obtain ob2 ob3 v where c: "contributors_step r ob2 = (None, ob3)"
    and l: "lyrics_step r (ob3(''copyright'' \<mapsto> v)) = (None, t)"
    by (auto simp add: add_more_tags_body_def seqs_Cons_ok seqs_Nil_ok assign_ok
        simp del: seqs.simps)
  from contributors_step_ok [OF c] obtain cc where
    cc: "subscript2 r ''DATA'' ''SNG_CONTRIBUTORS'' = Inr cc \<and>
           (is_list cc \<and> ob3 = ob2(''composer'' \<mapsto> PNone, ''author'' \<mapsto> PNone) \<or>
            (\<exists>kvs. cc = PDict kvs \<and>
               ob3 = ob2(''composer'' \<mapsto> dict_get kvs ''composer'',
                        ''author'' \<mapsto> dict_get kvs ''author'')))" ..
  from lyrics_step_ok [OF l] obtain rkv where
    ly: "r = PDict rkv \<and>
           (''LYRICS'' \<notin> fst ` set rkv \<and>
              t = (ob3(''copyright'' \<mapsto> v))(''lyrics'' \<mapsto> PNone, ''lyrics_sync'' \<mapsto> PNone,
                       ''lyrics_copyrights'' \<mapsto> PNone, ''lyrics_writers'' \<mapsto> PNone) \<or>
            ''LYRICS'' \<in> fst ` set rkv \<and>
            (\<exists>l ws. map_of rkv ''LYRICS'' = Some (PDict l) \<and>
               map_of l ''LYRICS_WRITERS'' = Some (PStr ws) \<and>
               t = (ob3(''copyright'' \<mapsto> v))(''lyrics'' \<mapsto> dict_get l ''LYRICS_TEXT'',
                        ''lyrics_sync'' \<mapsto> dict_get l ''LYRICS_SYNC_JSON'',
                        ''lyrics_copyrights'' \<mapsto> dict_get l ''LYRICS_COPYRIGHTS'',
                        ''lyrics_writers'' \<mapsto> PList (map PStr (split_comma_space ws)))))" ..
  have frame: "t ''composer'' = ob3 ''composer'' \<and> t ''author'' = ob3 ''author''"
  proof (cases "''LYRICS'' \<in> fst ` set rkv")
    case True
    with ly obtain l ws where
      "t = (ob3(''copyright'' \<mapsto> v))(''lyrics'' \<mapsto> dict_get l ''LYRICS_TEXT'',
                        ''lyrics_sync'' \<mapsto> dict_get l ''LYRICS_SYNC_JSON'',
                        ''lyrics_copyrights'' \<mapsto> dict_get l ''LYRICS_COPYRIGHTS'',
                        ''lyrics_writers'' \<mapsto> PList (map PStr (split_comma_space ws)))"
      by auto
    then show ?thesis by simp
  next
    case False
    with ly have
      "t = (ob3(''copyright'' \<mapsto> v))(''lyrics'' \<mapsto> PNone, ''lyrics_sync'' \<mapsto> PNone,
                       ''lyrics_copyrights'' \<mapsto> PNone, ''lyrics_writers'' \<mapsto> PNone)"
      by simp
    then show ?thesis by simp
  qed
  have contrib: "(is_list cc \<or> (\<exists>kvs. cc = PDict kvs)) \<and>
           (is_list cc \<longrightarrow> t ''composer'' = Some PNone \<and> t ''author'' = Some PNone) \<and>
           (\<forall>kvs. cc = PDict kvs \<longrightarrow>
              t ''composer'' = Some (dict_get kvs ''composer'') \<and>
              t ''author'' = Some (dict_get kvs ''author''))"
  proof (cases "is_list cc")
    case True
    then have "\<forall>kvs. cc \<noteq> PDict kvs" by (cases cc) simp_all
    with True cc have "ob3 = ob2(''composer'' \<mapsto> PNone, ''author'' \<mapsto> PNone)" by simp
    with True \<open>\<forall>kvs. cc \<noteq> PDict kvs\<close> frame show ?thesis by simp
  next
    case False
    with cc obtain kvs where k: "cc = PDict kvs"
      and "ob3 = ob2(''composer'' \<mapsto> dict_get kvs ''composer'',
                        ''author'' \<mapsto> dict_get kvs ''author'')"
      by auto
    with frame show ?thesis by simp
  qed
  have lyr: "(''LYRICS'' \<notin> fst ` set rkv \<longrightarrow>
              t ''lyrics'' = Some PNone \<and> t ''lyrics_sync'' = Some PNone \<and>
              t ''lyrics_copyrights'' = Some PNone \<and> t ''lyrics_writers'' = Some PNone) \<and>
           (''LYRICS'' \<in> fst ` set rkv \<longrightarrow>
              (\<exists>l ws. map_of rkv ''LYRICS'' = Some (PDict l) \<and>
                 map_of l ''LYRICS_WRITERS'' = Some (PStr ws) \<and>
                 t ''lyrics'' = Some (dict_get l ''LYRICS_TEXT'') \<and>
                 t ''lyrics_sync'' = Some (dict_get l ''LYRICS_SYNC_JSON'') \<and>
                 t ''lyrics_copyrights'' = Some (dict_get l ''LYRICS_COPYRIGHTS'') \<and>
                 t ''lyrics_writers'' = Some (PList (map PStr (split_comma_space ws)))))"
  proof (cases "''LYRICS'' \<in> fst ` set rkv")
    case True
    with ly obtain l ws where "map_of rkv ''LYRICS'' = Some (PDict l)"
      and "map_of l ''LYRICS_WRITERS'' = Some (PStr ws)"
      and "t = (ob3(''copyright'' \<mapsto> v))(''lyrics'' \<mapsto> dict_get l ''LYRICS_TEXT'',
                        ''lyrics_sync'' \<mapsto> dict_get l ''LYRICS_SYNC_JSON'',
                        ''lyrics_copyrights'' \<mapsto> dict_get l ''LYRICS_COPYRIGHTS'',
                        ''lyrics_writers'' \<mapsto> PList (map PStr (split_comma_space ws)))"
      by auto
    with True show ?thesis by simp
  next
    case False
    with ly have
      "t = (ob3(''copyright'' \<mapsto> v))(''lyrics'' \<mapsto> PNone, ''lyrics_sync'' \<mapsto> PNone,
                       ''lyrics_copyrights'' \<mapsto> PNone, ''lyrics_writers'' \<mapsto> PNone)"
      by simp
    with False show ?thesis by simp
  qed
  from cc ly contrib lyr show ?thesis
    unfolding t_def by (intro exI [of _ cc] exI [of _ rkv]) simp
qed


lemma hydrate_id: "getattr (deref hydrate_world 0) ''id'' = Inr (PInt 12345)"
  by (simp add: getattr_def deref_def hydrate_world_def demo_track_def)

lemma hydrate_api:
  "get_api hydrate_env hydrate_world (METHOD_PAGE_TRACK hydrate_env) (PDict [(''sng_id'', PInt 12345)])
   = (Inr page_track_answer,
      hydrate_world\<lparr>client_open := True,
        log := [api_post hydrate_env hydrate_world ''deezer.pageTrack''
                  (PDict [(''sng_id'', PInt 12345)])]\<rparr>)"
proof -
  have "truthy (csrf_token hydrate_world) \<and>
        session_expires hydrate_world \<le> time hydrate_env (log hydrate_world)"
    by (simp add: hydrate_world_def stale_world_def Session_init_def hydrate_env_def)
  then have "get_api hydrate_env hydrate_world (METHOD_PAGE_TRACK hydrate_env)
               (PDict [(''sng_id'', PInt 12345)]) =
     (and_then (json_response hydrate_env (log hydrate_world @
         [api_post hydrate_env hydrate_world (METHOD_PAGE_TRACK hydrate_env)
            (PDict [(''sng_id'', PInt 12345)])]))
        (\<lambda>response. subscript response ''results''),
      hydrate_world\<lparr>client_open := True, log := log hydrate_world @
         [api_post hydrate_env hydrate_world (METHOD_PAGE_TRACK hydrate_env)
            (PDict [(''sng_id'', PInt 12345)])]\<rparr>)"
    by (intro get_api_direct) simp
  then show ?thesis
    by (simp add: hydrate_env_def demo_env_def and_then_def hydrate_world_def stale_world_def
        Session_init_def)
qed

lemma hydrate_body:
  "add_more_tags_body page_track_answer ob =
     (None, ob(''md5_origin'' \<mapsto> PStr ''abc123'', ''media_version'' \<mapsto> PStr ''1'',
               ''composer'' \<mapsto> PNone, ''author'' \<mapsto> PNone, ''copyright'' \<mapsto> PStr ''(c)'',
               ''lyrics'' \<mapsto> PStr ''la la'', ''lyrics_sync'' \<mapsto> PNone,
               ''lyrics_copyrights'' \<mapsto> PNone,
               ''lyrics_writers'' \<mapsto> PList [PStr ''A'', PStr ''B'']))"
  by (simp add: add_more_tags_body_def contributors_step_def lyrics_step_def page_track_answer_def
      assign_def cond_def subscript2_def and_then_def)

theorem add_more_tags_sets_witness:
  "getattr (deref hydrate_world 0) ''id'' = Inr (PInt 12345) \<and>
   fst (get_api hydrate_env hydrate_world (METHOD_PAGE_TRACK hydrate_env)
          (PDict [(''sng_id'', PInt 12345)])) = Inr page_track_answer \<and>
   fst (add_more_tags hydrate_env hydrate_world 0) = Inr () \<and>
   deref (snd (add_more_tags hydrate_env hydrate_world 0)) 0 ''composer'' = Some PNone \<and>
   deref (snd (add_more_tags hydrate_env hydrate_world 0)) 0 ''author'' = Some PNone \<and>
   deref (snd (add_more_tags hydrate_env hydrate_world 0)) 0 ''lyrics_writers'' =
     Some (PList [PStr ''A'', PStr ''B''])"
proof -
  let ?w' = "snd (add_more_tags hydrate_env hydrate_world 0)"
  have run: "fst (add_more_tags hydrate_env hydrate_world 0) = Inr ()"
    by (simp add: add_more_tags_def hydrate_id hydrate_api run_on_def hydrate_body)
  then have ok: "add_more_tags hydrate_env hydrate_world 0 = (Inr (), ?w')"
    by (simp add: prod_eq_iff)
  from add_more_tags_sets [OF hydrate_id hydrate_api ok] obtain c rkv where
    c: "subscript2 page_track_answer ''DATA'' ''SNG_CONTRIBUTORS'' = Inr c"
    and r: "page_track_answer = PDict rkv"
    and comp: "is_list c \<longrightarrow>
              deref ?w' 0 ''composer'' = Some PNone \<and> deref ?w' 0 ''author'' = Some PNone"
    and lyr: "''LYRICS'' \<in> fst ` set rkv \<longrightarrow>
              (\<exists>l ws. map_of rkv ''LYRICS'' = Some (PDict l) \<and>
                 map_of l ''LYRICS_WRITERS'' = Some (PStr ws) \<and>
                 deref ?w' 0 ''lyrics'' = Some (dict_get l ''LYRICS_TEXT'') \<and>
                 deref ?w' 0 ''lyrics_sync'' = Some (dict_get l ''LYRICS_SYNC_JSON'') \<and>
                 deref ?w' 0 ''lyrics_copyrights'' = Some (dict_get l ''LYRICS_COPYRIGHTS'') \<and>
                 deref ?w' 0 ''lyrics_writers'' =
                   Some (PList (map PStr (split_comma_space ws))))"
    by (elim exE conjE) (rule that)
  from c have "c = PList []"
    by (simp add: page_track_answer_def subscript2_def and_then_def)
  with comp have composer:
    "deref ?w' 0 ''composer'' = Some PNone \<and> deref ?w' 0 ''author'' = Some PNone"
    by simp
  from r have rkv:
    "rkv = [(''DATA'', PDict [(''MD5_ORIGIN'', PStr ''abc123''), (''MEDIA_VERSION'', PStr ''1''),
                              (''SNG_CONTRIBUTORS'', PList []), (''COPYRIGHT'', PStr ''(c)'')]),
            (''LYRICS'', PDict [(''LYRICS_TEXT'', PStr ''la la''),
                                (''LYRICS_WRITERS'', PStr ''A, B'')])]"
    by (simp add: page_track_answer_def)
  with lyr obtain l ws where "map_of rkv ''LYRICS'' = Some (PDict l)"
    and "map_of l ''LYRICS_WRITERS'' = Some (PStr ws)"
    and w: "deref ?w' 0 ''lyrics_writers'' = Some (PList (map PStr (split_comma_space ws)))"
    by auto
  with rkv have "ws = ''A, B''" by auto
  with w have "deref ?w' 0 ''lyrics_writers'' = Some (PList [PStr ''A'', PStr ''B''])"
    by simp
  with hydrate_id hydrate_api run composer show ?thesis by simp
qed

text \<open>The hypothesis that the call returns is needed: a \<open>LYRICS\<close> section without a writer
  string makes \<open>None.split\<close> raise after the first three lyrics attributes are set.\<close>

lemma lyrics_without_writers_raises:
  assumes "map_of rkv ''LYRICS'' = Some (PDict l)" and "map_of l ''LYRICS_WRITERS'' = None"
  shows "fst (lyrics_step (PDict rkv) ob) = Some (AttributeError ''split'')"
proof -
  from assms(1) have "''LYRICS'' \<in> fst ` set rkv"
    by (metis map_of_eq_None_iff option.distinct(1))
  with assms show ?thesis
    by (simp add: lyrics_step_def cond_def assign_def and_then_def split: option.splits)
qed

text \<open>
  C8 as stated reaches every answer. For an answer whose \<open>LYRICS\<close> section has no
  \<open>LYRICS_WRITERS\<close> entry, \<open>.get("LYRICS_WRITERS")\<close> is \<open>None\<close> and \<open>None.split\<close> raises
  \<open>AttributeError\<close>: the call does not return, the first three lyrics attributes are set
  and \<open>lyrics_writers\<close> is not.
\<close>

theorem add_more_tags_without_writers:
  "fst (add_more_tags no_writers_env hydrate_world 0) = Inl (AttributeError ''split'') \<and>
   deref (snd (add_more_tags no_writers_env hydrate_world 0)) 0 ''lyrics'' = Some (PStr ''la la'') \<and>
   deref (snd (add_more_tags no_writers_env hydrate_world 0)) 0 ''lyrics_sync'' = Some PNone \<and>
   deref (snd (add_more_tags no_writers_env hydrate_world 0)) 0 ''lyrics_copyrights'' = Some PNone \<and>
   deref (snd (add_more_tags no_writers_env hydrate_world 0)) 0 ''lyrics_writers'' = None"
proof -
  let ?json = "PDict [(''sng_id'', PInt 12345)]"
  let ?w = "hydrate_world\<lparr>client_open := True,
      log := log hydrate_world @
        [api_post no_writers_env hydrate_world (METHOD_PAGE_TRACK no_writers_env) ?json]\<rparr>"
  have "truthy (csrf_token hydrate_world) \<and>
        session_expires hydrate_world \<le> time no_writers_env (log hydrate_world)"
    by (simp add: hydrate_world_def stale_world_def Session_init_def no_writers_env_def)
  then have "get_api no_writers_env hydrate_world (METHOD_PAGE_TRACK no_writers_env) ?json =
     (and_then (json_response no_writers_env (log hydrate_world @
         [api_post no_writers_env hydrate_world (METHOD_PAGE_TRACK no_writers_env) ?json]))
        (\<lambda>response. subscript response ''results''), ?w)"
    by (intro get_api_direct) simp
  then have api: "get_api no_writers_env hydrate_world (METHOD_PAGE_TRACK no_writers_env) ?json =
     (Inr no_writers_answer, ?w)"
    by (simp add: no_writers_env_def and_then_def)
  have body: "add_more_tags_body no_writers_answer ob =
     (Some (AttributeError ''split''),
      ob(''md5_origin'' \<mapsto> PStr ''abc123'', ''media_version'' \<mapsto> PStr ''1'',
         ''composer'' \<mapsto> PNone, ''author'' \<mapsto> PNone, ''copyright'' \<mapsto> PStr ''(c)'',
         ''lyrics'' \<mapsto> PStr ''la la'', ''lyrics_sync'' \<mapsto> PNone,
         ''lyrics_copyrights'' \<mapsto> PNone))" for ob
    by (simp add: add_more_tags_body_def contributors_step_def lyrics_step_def
        no_writers_answer_def assign_def cond_def subscript2_def and_then_def)
  have d: "deref ?w 0 = demo_track"
    by (simp add: deref_def hydrate_world_def)
  have run: "add_more_tags no_writers_env hydrate_world 0 =
     run_on ?w 0 (add_more_tags_body no_writers_answer)"
    by (simp add: add_more_tags_def hydrate_id api)
  show ?thesis
    unfolding run by (simp add: run_on_def d body deref_def hydrate_world_def demo_track_def)
qed

subsection \<open>One instance for an ID\<close>

lemma caches_kept_refl [simp]: "caches_kept w w"
  by (simp add: caches_kept_def)

lemma caches_kept_trans: "caches_kept w1 w2 \<Longrightarrow> caches_kept w2 w3 \<Longrightarrow> caches_kept w1 w3"
  unfolding caches_kept_def by (auto intro: map_le_trans)

lemma caches_kept_same:
  "track_cache w' = track_cache w \<Longrightarrow> album_cache w' = album_cache w \<Longrightarrow> caches_kept w w'"
  by (simp add: caches_kept_def)

lemma caches_kept_track:
  "caches_kept w w' \<Longrightarrow> track_cache w k = Some a \<Longrightarrow> track_cache w' k = Some a"
  unfolding caches_kept_def map_le_def by (metis domI)

lemma caches_kept_album:
  "caches_kept w w' \<Longrightarrow> album_cache w k = Some a \<Longrightarrow> album_cache w' k = Some a"
  unfolding caches_kept_def map_le_def by (metis domI)

lemma run_on_caches [simp]:
  "track_cache (snd (run_on w self body)) = track_cache w"
  "album_cache (snd (run_on w self body)) = album_cache w"
  by (simp_all add: run_on_def split: prod.splits option.splits)

lemma run_on_heap:
  "heap (snd (run_on w self body)) = (heap w)(self \<mapsto> snd (body (deref w self)))"
  by (simp add: run_on_def split: prod.splits option.splits)

lemma Track_new_hit:
  assumes "id_key info = Inr k" and "track_cache w k = Some a"
  shows "Track_new w info = (Inr a, w)"
  using assms by (simp add: Track_new_def id_key_def)

lemma Track_new_ok:
  assumes "Track_new w info = (Inr a, w1)"
  shows "\<exists>k. id_key info = Inr k \<and> track_cache w1 k = Some a"
  using assms
  by (auto simp add: Track_new_def id_key_def split: sum.splits option.splits)

lemma Track_new_kept: "caches_kept w (snd (Track_new w info))"
  by (auto simp add: Track_new_def caches_kept_def map_le_def split: sum.splits option.splits)

lemma Album_new_hit:
  assumes "id_key info = Inr k" and "album_cache w k = Some a"
  shows "Album_new w info = (Inr a, w)"
  using assms by (simp add: Album_new_def id_key_def)

lemma Album_new_ok:
  assumes "Album_new w info = (Inr a, w1)"
  shows "\<exists>k. id_key info = Inr k \<and> album_cache w1 k = Some a"
  using assms
  by (auto simp add: Album_new_def id_key_def split: sum.splits option.splits)

lemma Album_new_kept: "caches_kept w (snd (Album_new w info))"
  by (auto simp add: Album_new_def caches_kept_def map_le_def split: sum.splits option.splits)

lemma Track_unfold:
  "Track E w info =
     (case Track_new w info of
        (Inl e, w1) \<Rightarrow> (Inl e, w1)
      | (Inr self, w1) \<Rightarrow>
          (case fst (run_on w1 self (Track_init_body E info)) of
             Inl e \<Rightarrow> (Inl e, snd (run_on w1 self (Track_init_body E info)))
           | Inr u \<Rightarrow> (Inr self, snd (run_on w1 self (Track_init_body E info)))))"
  by (simp add: Track_def Track_init_def split: prod.splits sum.splits)

lemma Album_unfold:
  "Album E w info =
     (case Album_new w info of
        (Inl e, w1) \<Rightarrow> (Inl e, w1)
      | (Inr self, w1) \<Rightarrow>
          (case fst (run_on w1 self (Album_init_body E info)) of
             Inl e \<Rightarrow> (Inl e, snd (run_on w1 self (Album_init_body E info)))
           | Inr u \<Rightarrow> (Inr self, snd (run_on w1 self (Album_init_body E info)))))"
  by (simp add: Album_def Album_init_def split: prod.splits sum.splits)

lemma Track_kept: "caches_kept w (snd (Track E w info))"
proof -
  obtain r w1 where n: "Track_new w info = (r, w1)" by (cases "Track_new w info")
  with Track_new_kept [of w info] have k: "caches_kept w w1" by simp
  show ?thesis
  proof (cases r)
    case (Inl e)
    with n k show ?thesis by (simp add: Track_unfold)
  next
    case (Inr self)
    have "caches_kept w1 (snd (run_on w1 self (Track_init_body E info)))"
      by (rule caches_kept_same) simp_all
    with k have "caches_kept w (snd (run_on w1 self (Track_init_body E info)))"
      by (rule caches_kept_trans)
    with n Inr show ?thesis by (simp add: Track_unfold split: sum.splits)
  qed
qed

lemma Album_kept: "caches_kept w (snd (Album E w info))"
proof -
  obtain r w1 where n: "Album_new w info = (r, w1)" by (cases "Album_new w info")
  with Album_new_kept [of w info] have k: "caches_kept w w1" by simp
  show ?thesis
  proof (cases r)
    case (Inl e)
    with n k show ?thesis by (simp add: Album_unfold)
  next
    case (Inr self)
    have "caches_kept w1 (snd (run_on w1 self (Album_init_body E info)))"
      by (rule caches_kept_same) simp_all
    with k have "caches_kept w (snd (run_on w1 self (Album_init_body E info)))"
      by (rule caches_kept_trans)
    with n Inr show ?thesis by (simp add: Album_unfold split: sum.splits)
  qed
qed

lemma Track_ok:
  assumes "Track E w info = (Inr a, w')"
  shows "\<exists>k. id_key info = Inr k \<and> track_cache w' k = Some a"
proof -
  from assms obtain w1 where n: "Track_new w info = (Inr a, w1)"
    and w': "w' = snd (run_on w1 a (Track_init_body E info))"
    by (auto simp add: Track_unfold split: prod.splits sum.splits)
  from Track_new_ok [OF n] w' show ?thesis by simp
qed

lemma Album_ok:
  assumes "Album E w info = (Inr a, w')"
  shows "\<exists>k. id_key info = Inr k \<and> album_cache w' k = Some a"
proof -
  from assms obtain w1 where n: "Album_new w info = (Inr a, w1)"
    and w': "w' = snd (run_on w1 a (Album_init_body E info))"
    by (auto simp add: Album_unfold split: prod.splits sum.splits)
  from Album_new_ok [OF n] w' show ?thesis by simp
qed

lemma Track_cached:
  assumes "id_key info = Inr k" and "track_cache w k = Some a"
    and "Track E w info = (Inr a', w')"
  shows "a' = a \<and> heap w' = (heap w)(a \<mapsto> snd (Track_init_body E info (deref w a)))"
  using assms
  by (auto simp add: Track_unfold Track_new_hit run_on_heap split: sum.splits)

lemma Album_cached:
  assumes "id_key info = Inr k" and "album_cache w k = Some a"
    and "Album E w info = (Inr a', w')"
  shows "a' = a"
  using assms
  by (auto simp add: Album_unfold Album_new_hit split: sum.splits)

lemma assign_frame: "n \<noteq> name \<Longrightarrow> snd (assign name rhs ob) n = ob n"
  by (cases rhs) (simp_all add: assign_def)

lemma seqs_frame:
  assumes "\<And>s ob. s \<in> set ss \<Longrightarrow> snd (s ob) n = ob n"
  shows "snd (seqs ss ob) n = ob n"
  using assms
proof (induction ss arbitrary: ob)
  case Nil
  show ?case by simp
next
  case (Cons s ss)
  obtain e ob1 where s: "s ob = (e, ob1)" by (cases "s ob")
  with Cons.prems [of s ob] have ob1: "ob1 n = ob n" by simp
  show ?case
  proof (cases e)
    case None
    with s have "seqs (s # ss) ob = seqs ss ob1" by simp
    moreover have "snd (seqs ss ob1) n = ob1 n"
      by (rule Cons.IH) (simp add: Cons.prems)
    ultimately show ?thesis using ob1 by simp
  next
    case (Some err)
    with s ob1 show ?thesis by simp
  qed
qed

lemma extended_not_core:
  assumes "n \<in> extended_tags"
  shows "n \<noteq> ''album_id'' \<and> n \<noteq> ''artist'' \<and> n \<noteq> ''artists'' \<and> n \<noteq> ''bpm'' \<and>
         n \<noteq> ''disk_number'' \<and> n \<noteq> ''duration'' \<and> n \<noteq> ''id'' \<and> n \<noteq> ''isrc'' \<and>
         n \<noteq> ''link'' \<and> n \<noteq> ''number'' \<and> n \<noteq> ''preview_link'' \<and> n \<noteq> ''rank'' \<and>
         n \<noteq> ''replaygain_track_gain'' \<and> n \<noteq> ''release_date'' \<and> n \<noteq> ''title'' \<and>
         n \<noteq> ''title_short''"
  using assms unfolding extended_tags_def by (elim insertE emptyE) simp_all

lemma Track_init_body_frame:
  assumes "n \<in> extended_tags"
  shows "snd (Track_init_body E info ob) n = ob n"
proof (cases "py_in ''error'' info")
  case (Inl e)
  then show ?thesis by (simp add: Track_init_body_def cond_def)
next
  case (Inr b)
  show ?thesis
  proof (cases b)
    case True
    with Inr show ?thesis
      by (simp add: Track_init_body_def cond_def raise_def split: sum.splits)
  next
    case False
    note core = extended_not_core [OF assms]
    from Inr False show ?thesis
      unfolding Track_init_body_def cond_def
      by (simp del: seqs.simps) (rule seqs_frame, use core in \<open>auto simp add: assign_frame\<close>)
  qed
qed

lemma Track_again:
  assumes first: "Track E w info = (Inr a, w1)"
    and kept: "caches_kept w1 w2"
    and same: "id_key info' = id_key info"
    and again: "Track E w2 info' = (Inr a', w3)"
  shows "a' = a \<and> (\<forall>n \<in> extended_tags. deref w3 a' n = deref w2 a n)"
proof -
  from Track_ok [OF first] obtain k where k: "id_key info = Inr k" and "track_cache w1 k = Some a"
    by (elim exE conjE)
  with kept have c: "track_cache w2 k = Some a" by (simp add: caches_kept_track)
  from same k have k': "id_key info' = Inr k" by simp
  from Track_cached [OF k' c again]
  have a: "a' = a" and h: "heap w3 = (heap w2)(a \<mapsto> snd (Track_init_body E info' (deref w2 a)))"
    by simp_all
  from h have "deref w3 a = snd (Track_init_body E info' (deref w2 a))"
    by (simp add: deref_def)
  with a show ?thesis by (simp add: Track_init_body_frame)
qed

lemma Track_each_kept: "caches_kept w (snd (Track_each E w xs))"
proof (induction xs arbitrary: w)
  case Nil
  show ?case by simp
next
  case (Cons x xs)
  obtain r w1 where t: "Track E w x = (r, w1)" by (cases "Track E w x")
  with Track_kept [of w E x] have k: "caches_kept w w1" by simp
  show ?case
  proof (cases r)
    case (Inl e)
    with t k show ?thesis by simp
  next
    case (Inr a)
    from k Cons.IH [of w1] have "caches_kept w (snd (Track_each E w1 xs))"
      by (rule caches_kept_trans)
    with t Inr show ?thesis
      by (cases "Track_each E w1 xs") (auto split: sum.splits)
  qed
qed

lemma Track_each_shares:
  assumes "Track_each E w xs = (Inr as, w')" and "i < length xs"
    and "id_key (xs ! i) = Inr k" and "track_cache w k = Some a"
  shows "as ! i = a"
  using assms
proof (induction xs arbitrary: w as i)
  case Nil
  then show ?case by simp
next
  case (Cons x xs)
  from Cons.prems(1) obtain a0 w1 as' where t: "Track E w x = (Inr a0, w1)"
    and rest: "Track_each E w1 xs = (Inr as', w')" and as: "as = a0 # as'"
    by (auto split: prod.splits sum.splits)
  show ?case
  proof (cases i)
    case 0
    with Cons.prems(3) have "id_key x = Inr k" by simp
    from Track_cached [OF this Cons.prems(4) t] as 0 show ?thesis by simp
  next
    case (Suc j)
    from Track_kept [of w E x] t have "caches_kept w w1" by simp
    with Cons.prems(4) have c: "track_cache w1 k = Some a" by (simp add: caches_kept_track)
    from Suc Cons.prems(2,3) have "j < length xs" "id_key (xs ! j) = Inr k" by simp_all
    from Cons.IH [OF rest this c] as Suc show ?thesis by simp
  qed
qed

lemma Album_again:
  assumes first: "Album E w info = (Inr a, w1)"
    and kept: "caches_kept w1 w2"
    and same: "id_key info' = id_key info"
    and again: "Album E w2 info' = (Inr a', w3)"
  shows "a' = a"
proof -
  from Album_ok [OF first] obtain k where k: "id_key info = Inr k" and "album_cache w1 k = Some a"
    by (elim exE conjE)
  with kept have c: "album_cache w2 k = Some a" by (simp add: caches_kept_album)
  from same k have k': "id_key info' = Inr k" by simp
  from Album_cached [OF k' c again] show ?thesis .
qed

lemma refresh_session_store:
  "track_cache (snd (refresh_session E w)) = track_cache w \<and>
   album_cache (snd (refresh_session E w)) = album_cache w \<and>
   heap (snd (refresh_session E w)) = heap w"
  by (simp add: refresh_session.simps [of E w] get_api_direct split: sum.splits)

lemma get_api_store:
  "track_cache (snd (get_api E w meth body)) = track_cache w \<and>
   album_cache (snd (get_api E w meth body)) = album_cache w \<and>
   heap (snd (get_api E w meth body)) = heap w"
proof (cases "meth = METHOD_GET_USER E \<or>
           (truthy (csrf_token w) \<and> session_expires w \<le> time E (log w))")
  case True
  then show ?thesis by (simp add: get_api_direct)
next
  case False
  obtain r w1 where rw: "refresh_session E w = (r, w1)" by (cases "refresh_session E w")
  with refresh_session_store [of E w]
  have "track_cache w1 = track_cache w \<and> album_cache w1 = album_cache w \<and> heap w1 = heap w"
    by simp
  with False rw show ?thesis
    by (cases r) (auto simp add: get_api.simps [of E w meth body] Let_def
        update_requests_session_def)
qed

lemma add_more_tags_kept: "caches_kept w (snd (add_more_tags E w self))"
proof (rule caches_kept_same)
  show "track_cache (snd (add_more_tags E w self)) = track_cache w"
    using get_api_store [of E w]
    by (auto simp add: add_more_tags_def split: sum.splits prod.splits)
       (metis run_on_caches(1) snd_conv)+
  show "album_cache (snd (add_more_tags E w self)) = album_cache w"
    using get_api_store [of E w]
    by (auto simp add: add_more_tags_def split: sum.splits prod.splits)
       (metis run_on_caches(2) snd_conv)+
qed

lemma demo_init_body:
  "Track_init_body hydrate_env demo_track_info ob =
     (None, ob(''album_id'' \<mapsto> PInt 77, ''artist'' \<mapsto> PStr ''Ann'', ''artists'' \<mapsto> PList [PStr ''Ann''],
               ''bpm'' \<mapsto> PInt 120, ''disk_number'' \<mapsto> PInt 1, ''duration'' \<mapsto> PInt 180,
               ''id'' \<mapsto> PInt 12345, ''isrc'' \<mapsto> PStr ''QM1'',
               ''link'' \<mapsto> PStr ''https://www.deezer.com/track/12345'', ''number'' \<mapsto> PInt 1,
               ''preview_link'' \<mapsto> PStr ''https://cdn/p.mp3'', ''rank'' \<mapsto> PInt 5,
               ''replaygain_track_gain'' \<mapsto> PInt (- 12), ''release_date'' \<mapsto> PStr ''2020-01-01'',
               ''title'' \<mapsto> PStr ''Song'', ''title_short'' \<mapsto> PStr ''Song''))"
  by (simp add: Track_init_body_def demo_track_info_def cond_def assign_def subscript2_def
      and_then_def names_of_def hydrate_env_def demo_env_def)

lemma demo_id_key: "id_key demo_track_info = Inr (PInt 12345)"
  by (simp add: id_key_def demo_track_info_def and_then_def)


lemma share_w1_eq:
  "share_w1 = stale_world\<lparr>track_cache := [PInt 12345 \<mapsto> 0],
       heap := [0 \<mapsto> snd (Track_init_body hydrate_env demo_track_info Map.empty)],
       next_ref := Suc 0\<rparr>"
proof -
  have "Track_new stale_world demo_track_info =
      (Inr 0, stale_world\<lparr>track_cache := [PInt 12345 \<mapsto> 0], heap := [0 \<mapsto> Map.empty],
                           next_ref := Suc 0\<rparr>)"
    by (simp add: Track_new_def demo_track_info_def and_then_def stale_world_def Session_init_def)
  then show ?thesis
    by (simp add: share_w1_def Track_unfold run_on_def demo_init_body deref_def)
qed

lemma share_first: "Track hydrate_env stale_world demo_track_info = (Inr 0, share_w1)"
proof -
  have "Track_new stale_world demo_track_info =
      (Inr 0, stale_world\<lparr>track_cache := [PInt 12345 \<mapsto> 0], heap := [0 \<mapsto> Map.empty],
                           next_ref := Suc 0\<rparr>)"
    by (simp add: Track_new_def demo_track_info_def and_then_def stale_world_def Session_init_def)
  then have "fst (Track hydrate_env stale_world demo_track_info) = Inr 0"
    by (simp add: Track_unfold run_on_def demo_init_body)
  then show ?thesis by (simp add: share_w1_def prod_eq_iff)
qed

lemma share_w1_cache: "track_cache share_w1 (PInt 12345) = Some 0"
  by (simp add: share_w1_eq)

lemma share_w1_heap:
  "deref share_w1 0 = snd (Track_init_body hydrate_env demo_track_info Map.empty)"
  by (simp add: share_w1_eq deref_def)

lemma share_w1_session:
  "truthy (csrf_token share_w1) \<and> session_expires share_w1 \<le> time hydrate_env (log share_w1)"
  by (simp add: share_w1_eq stale_world_def Session_init_def hydrate_env_def)

lemma deref_run_on: "deref (snd (run_on w self body)) self = snd (body (deref w self))"
  by (simp add: run_on_heap deref_def)

lemma deref_sent [simp]: "deref (w\<lparr>client_open := c, log := l\<rparr>) a = deref w a"
  by (simp add: deref_def)

lemma share_hydrated: "deref share_w2 0 ''md5_origin'' = Some (PStr ''abc123'')"
proof -
  let ?json = "PDict [(''sng_id'', PInt 12345)]"
  let ?w = "share_w1\<lparr>client_open := True,
        log := log share_w1 @ [api_post hydrate_env share_w1 (METHOD_PAGE_TRACK hydrate_env) ?json]\<rparr>"
  have id: "getattr (deref share_w1 0) ''id'' = Inr (PInt 12345)"
    by (simp add: share_w1_heap demo_init_body getattr_def)
  have api: "get_api hydrate_env share_w1 (METHOD_PAGE_TRACK hydrate_env) ?json =
     (and_then (json_response hydrate_env
          (log share_w1 @ [api_post hydrate_env share_w1 (METHOD_PAGE_TRACK hydrate_env) ?json]))
        (\<lambda>response. subscript response ''results''), ?w)"
    using share_w1_session by (intro get_api_direct) simp
  have answer: "and_then (json_response hydrate_env
          (log share_w1 @ [api_post hydrate_env share_w1 (METHOD_PAGE_TRACK hydrate_env) ?json]))
        (\<lambda>response. subscript response ''results'') = Inr page_track_answer"
    by (simp add: hydrate_env_def and_then_def)
  have w2: "share_w2 = snd (run_on ?w 0 (add_more_tags_body page_track_answer))"
    unfolding share_w2_def by (simp add: add_more_tags_def id api answer)
  have "deref share_w2 0 = snd (add_more_tags_body page_track_answer (deref ?w 0))"
    unfolding w2 by (rule deref_run_on)
  then show ?thesis
    by (simp add: hydrate_body)
qed

lemma share_again: "Track hydrate_env share_w2 demo_track_info = (Inr 0, share_w3)"
proof -
  have "caches_kept share_w1 share_w2"
    unfolding share_w2_def by (rule add_more_tags_kept)
  with share_w1_cache have "track_cache share_w2 (PInt 12345) = Some 0"
    by (simp add: caches_kept_track)
  with demo_id_key have "Track_new share_w2 demo_track_info = (Inr 0, share_w2)"
    by (rule Track_new_hit)
  then have "fst (Track hydrate_env share_w2 demo_track_info) = Inr 0"
    by (simp add: Track_unfold run_on_def demo_init_body)
  then show ?thesis by (simp add: share_w3_def prod_eq_iff)
qed



subsection \<open>The fallback of a download\<close>

lemma chain_from_eval:
  "chain_from (PStr ''FLAC'') = [PStr ''FLAC'', PStr ''MP3_320'', PStr ''MP3_256'', PStr ''MP3_128'']"
  "chain_from (PStr ''MP3_320'') = [PStr ''MP3_320'', PStr ''MP3_256'', PStr ''MP3_128'']"
  "chain_from (PStr ''MP3_256'') = [PStr ''MP3_256'', PStr ''MP3_128'']"
  "chain_from (PStr ''MP3_128'') = [PStr ''MP3_128'']"
  by (simp_all add: chain_from_def)

lemma chain_from_other:
  assumes "b \<noteq> PStr ''FLAC''" "b \<noteq> PStr ''MP3_320''" "b \<noteq> PStr ''MP3_256''"
  shows "chain_from b = [b]"
  using assms by (auto simp add: chain_from_def)

lemma download_track_last:
  assumes "b \<noteq> PStr ''FLAC''" "b \<noteq> PStr ''MP3_320''" "b \<noteq> PStr ''MP3_256''"
  shows "download_track E w track b cb = fallback_loop E w track [b] cb"
  using assms
  by (simp add: download_track.simps [of E w track b cb] split: prod.splits sum.splits)

lemma download_track_loop:
  "download_track E w track bitrate cb = fallback_loop E w track (chain_from bitrate) cb"
proof -
  have l0: "download_track E w track (PStr ''MP3_128'') cb =
            fallback_loop E w track [PStr ''MP3_128''] cb" for w
    by (rule download_track_last) simp_all
  have l1: "download_track E w track (PStr ''MP3_256'') cb =
            fallback_loop E w track [PStr ''MP3_256'', PStr ''MP3_128''] cb" for w
    by (simp add: download_track.simps [of E w track "PStr ''MP3_256''" cb] l0
        split: prod.splits sum.splits)
  have l2: "download_track E w track (PStr ''MP3_320'') cb =
            fallback_loop E w track [PStr ''MP3_320'', PStr ''MP3_256'', PStr ''MP3_128''] cb" for w
    by (simp add: download_track.simps [of E w track "PStr ''MP3_320''" cb] l1
        split: prod.splits sum.splits)
  have l3: "download_track E w track (PStr ''FLAC'') cb =
            fallback_loop E w track
              [PStr ''FLAC'', PStr ''MP3_320'', PStr ''MP3_256'', PStr ''MP3_128''] cb" for w
    by (simp add: download_track.simps [of E w track "PStr ''FLAC''" cb] l2
        split: prod.splits sum.splits)
  consider "bitrate = PStr ''FLAC''" | "bitrate = PStr ''MP3_320''" | "bitrate = PStr ''MP3_256''"
    | "bitrate \<noteq> PStr ''FLAC''" "bitrate \<noteq> PStr ''MP3_320''" "bitrate \<noteq> PStr ''MP3_256''"
    by auto
  then show ?thesis
  proof cases
    case 1 then show ?thesis by (simp add: l3 chain_from_eval)
  next
    case 2 then show ?thesis by (simp add: l2 chain_from_eval)
  next
    case 3 then show ?thesis by (simp add: l1 chain_from_eval)
  next
    case 4 then show ?thesis by (simp add: download_track_last chain_from_other)
  qed
qed

lemma stream_gets_simps [simp]:
  "stream_gets [] = 0"
  "stream_gets (e # es) = (if is_get e then Suc (stream_gets es) else stream_gets es)"
  "stream_gets (xs @ ys) = stream_gets xs + stream_gets ys"
  by (simp_all add: stream_gets_def)

lemma page_track_posts_simps [simp]:
  "page_track_posts E [] = 0"
  "page_track_posts E (e # es) =
     (if is_page_track_post E e then Suc (page_track_posts E es) else page_track_posts E es)"
  "page_track_posts E (xs @ ys) = page_track_posts E xs + page_track_posts E ys"
  by (simp_all add: page_track_posts_def)

lemma is_page_track_post_api_post [simp]:
  "is_page_track_post E (api_post E w meth body) = (meth = METHOD_PAGE_TRACK E)"
  by (simp add: api_post_def)

lemma is_get_api_post [simp]: "\<not> is_get (api_post E w meth body)"
  by (simp add: api_post_def)

lemma new_events_log: "log w' = log w @ evs \<Longrightarrow> new_events w w' = evs"
  by (simp add: new_events_def)

lemma hydrated_before_mono: "hydrated_before E False evs \<Longrightarrow> hydrated_before E h evs"
  by (cases evs) auto

lemma hydrated_before_append:
  "hydrated_before E h xs \<Longrightarrow> hydrated_before E False ys \<Longrightarrow> hydrated_before E h (xs @ ys)"
proof (induction xs arbitrary: h)
  case Nil
  then show ?case by (simp add: hydrated_before_mono)
next
  case (Cons x xs)
  then show ?case by simp
qed

lemma hydrated_before_get:
  assumes "stream_gets evs = 0" and "evs \<noteq> []" and "is_page_track_post E (last evs)"
  shows "hydrated_before E h (evs @ [Get url ps])"
  using assms
proof (induction evs arbitrary: h)
  case Nil
  then show ?case by simp
next
  case (Cons e es)
  then show ?case by (cases es) (auto split: if_splits)
qed

lemma hydrated_before_no_gets: "stream_gets evs = 0 \<Longrightarrow> hydrated_before E h evs"
  by (induction evs arbitrary: h) (auto split: if_splits)

text \<open>What a page-track call sends: the identity lookup when it refreshes, and then, unless
  the refresh failed, the call itself.\<close>

lemma get_api_page_track:
  fixes E w body
  defines "G \<equiv> get_api E w (METHOD_PAGE_TRACK E) body"
  shows "\<exists>evs. log (snd G) = log w @ evs \<and> stream_gets evs = 0 \<and> page_track_posts E evs \<le> 1 \<and>
           (\<forall>r. fst G = Inr r \<longrightarrow>
              evs \<noteq> [] \<and> is_page_track_post E (last evs) \<and> page_track_posts E evs = 1)"
proof (cases "METHOD_PAGE_TRACK E = METHOD_GET_USER E \<or>
           (truthy (csrf_token w) \<and> session_expires w \<le> time E (log w))")
  case True
  then have "G = (and_then (json_response E (log w @ [api_post E w (METHOD_PAGE_TRACK E) body]))
        (\<lambda>response. subscript response ''results''),
      w\<lparr>client_open := True, log := log w @ [api_post E w (METHOD_PAGE_TRACK E) body]\<rparr>)"
    unfolding G_def by (intro get_api_direct) simp
  then show ?thesis
    by (intro exI [of _ "[api_post E w (METHOD_PAGE_TRACK E) body]"]) simp
next
  case False
  then have ne: "METHOD_PAGE_TRACK E \<noteq> METHOD_GET_USER E"
    and stale: "\<not> truthy (csrf_token w) \<or> time E (log w) < session_expires w"
    by auto
  obtain r0 w1 where rw: "refresh_session E w = (r0, w1)" by (cases "refresh_session E w")
  with refresh_session_log [of E w]
  have w1: "log w1 = log w @ [api_post E w (METHOD_GET_USER E) PNone]" by simp
  show ?thesis
  proof (cases r0)
    case (Inl e)
    with ne stale rw have "G = (Inl e, w1)"
      unfolding G_def by (simp add: get_api.simps [of E w "METHOD_PAGE_TRACK E" body])
    with w1 ne show ?thesis
      by (intro exI [of _ "[api_post E w (METHOD_GET_USER E) PNone]"]) auto
  next
    case (Inr u)
    with ne stale rw w1
    have "log (snd G) = log w @ [api_post E w (METHOD_GET_USER E) PNone,
                                 api_post E w1 (METHOD_PAGE_TRACK E) body]"
      unfolding G_def
      by (simp add: get_api.simps [of E w "METHOD_PAGE_TRACK E" body] Let_def
          update_requests_session_def api_post_def)
    with ne show ?thesis
      by (intro exI [of _ "[api_post E w (METHOD_GET_USER E) PNone,
                            api_post E w1 (METHOD_PAGE_TRACK E) body]"]) auto
  qed
qed

lemma run_on_log [simp]: "log (snd (run_on w self body)) = log w"
  by (simp add: run_on_def split: prod.splits option.splits)

lemma add_more_tags_events:
  fixes E w self
  defines "A \<equiv> add_more_tags E w self"
  shows "\<exists>evs. log (snd A) = log w @ evs \<and> stream_gets evs = 0 \<and> page_track_posts E evs \<le> 1 \<and>
           (\<forall>u. fst A = Inr u \<longrightarrow>
              evs \<noteq> [] \<and> is_page_track_post E (last evs) \<and> page_track_posts E evs = 1)"
proof (cases "getattr (deref w self) ''id''")
  case (Inl e)
  then have "A = (Inl e, w)" unfolding A_def by (simp add: add_more_tags_def)
  then show ?thesis by (intro exI [of _ "[]"]) simp
next
  case (Inr tid)
  let ?G = "get_api E w (METHOD_PAGE_TRACK E) (PDict [(''sng_id'', tid)])"
  from get_api_page_track [of E w "PDict [(''sng_id'', tid)]"]
  obtain evs where evs: "log (snd ?G) = log w @ evs" "stream_gets evs = 0"
    "page_track_posts E evs \<le> 1"
    "\<forall>r. fst ?G = Inr r \<longrightarrow>
       evs \<noteq> [] \<and> is_page_track_post E (last evs) \<and> page_track_posts E evs = 1"
    by (elim exE conjE) (rule that)
  obtain g w1 where g: "?G = (g, w1)" by (cases ?G)
  show ?thesis
  proof (cases g)
    case (Inl e)
    with Inr g have "A = (Inl e, w1)" unfolding A_def by (simp add: add_more_tags_def)
    with evs g show ?thesis by (intro exI [of _ evs]) simp
  next
    case r: (Inr r)
    with Inr g have "A = run_on w1 self (add_more_tags_body r)"
      unfolding A_def by (simp add: add_more_tags_def)
    then have "log (snd A) = log w1" by simp
    with evs g r show ?thesis by (intro exI [of _ evs]) simp
  qed
qed

lemma cond_frame:
  assumes "\<And>ob. snd (s1 ob) n = ob n" and "\<And>ob. snd (s2 ob) n = ob n"
  shows "snd (cond c s1 s2 ob) n = ob n"
  using assms by (cases c) (simp_all add: cond_def)

lemma contributors_step_frame:
  assumes "n \<noteq> ''composer''" and "n \<noteq> ''author''"
  shows "snd (contributors_step r ob) n = ob n"
  unfolding contributors_step_def
  by (intro cond_frame seqs_frame) (use assms in \<open>auto simp add: assign_frame\<close>)

lemma lyrics_step_frame:
  assumes "n \<noteq> ''lyrics''" and "n \<noteq> ''lyrics_sync''" and "n \<noteq> ''lyrics_copyrights''"
    and "n \<noteq> ''lyrics_writers''"
  shows "snd (lyrics_step r ob) n = ob n"
  unfolding lyrics_step_def
  by (intro cond_frame seqs_frame) (use assms in \<open>auto simp add: assign_frame\<close>)

lemma add_more_tags_body_frame:
  assumes "n \<notin> extended_tags"
  shows "snd (add_more_tags_body r ob) n = ob n"
proof -
  from assms have ne: "n \<noteq> ''md5_origin''" "n \<noteq> ''media_version''" "n \<noteq> ''composer''"
    "n \<noteq> ''author''" "n \<noteq> ''copyright''" "n \<noteq> ''lyrics''" "n \<noteq> ''lyrics_sync''"
    "n \<noteq> ''lyrics_copyrights''" "n \<noteq> ''lyrics_writers''"
    by (auto simp add: extended_tags_def)
  show ?thesis
    unfolding add_more_tags_body_def
    by (intro seqs_frame)
       (use ne in \<open>auto simp add: assign_frame contributors_step_frame lyrics_step_frame\<close>)
qed

lemma deref_client_open [simp]: "deref (w\<lparr>client_open := c\<rparr>) a = deref w a"
  by (simp add: deref_def)

lemma deref_log [simp]: "deref (w\<lparr>log := l\<rparr>) a = deref w a"
  by (simp add: deref_def)

lemma deref_heap: "heap w' = heap w \<Longrightarrow> deref w' a = deref w a"
  by (simp add: deref_def)

text \<open>When \<open>add_more_tags\<close> returns, the track has the origin hash and the media version
  of the answer, and every attribute that is no extended tag is as before.\<close>

lemma add_more_tags_ok:
  assumes "add_more_tags E w self = (Inr u, w')"
  shows "\<exists>tid r a b.
           getattr (deref w self) ''id'' = Inr tid \<and>
           fst (get_api E w (METHOD_PAGE_TRACK E) (PDict [(''sng_id'', tid)])) = Inr r \<and>
           subscript2 r ''DATA'' ''MD5_ORIGIN'' = Inr a \<and>
           subscript2 r ''DATA'' ''MEDIA_VERSION'' = Inr b \<and>
           deref w' self ''md5_origin'' = Some a \<and>
           deref w' self ''media_version'' = Some b \<and>
           (\<forall>n. n \<notin> extended_tags \<longrightarrow> deref w' self n = deref w self n)"
proof -
  from assms obtain tid where tid: "getattr (deref w self) ''id'' = Inr tid"
    by (cases "getattr (deref w self) ''id''") (simp_all add: add_more_tags_def)
  let ?G = "get_api E w (METHOD_PAGE_TRACK E) (PDict [(''sng_id'', tid)])"
  obtain g w1 where g: "?G = (g, w1)" by (cases ?G)
  with assms tid obtain r where r: "g = Inr r"
    by (cases g) (simp_all add: add_more_tags_def)
  with assms tid g have run: "run_on w1 self (add_more_tags_body r) = (Inr u, w')"
    by (simp add: add_more_tags_def)
  from get_api_store [of E w "METHOD_PAGE_TRACK E" "PDict [(''sng_id'', tid)]"] g
  have "heap w1 = heap w" by simp
  then have d: "deref w1 self = deref w self" by (rule deref_heap)
  from run have body: "add_more_tags_body r (deref w self) = (None, deref w' self)"
    by (simp add: run_on_ok d [symmetric])
  then obtain a b ob' where a: "subscript2 r ''DATA'' ''MD5_ORIGIN'' = Inr a"
    and b: "subscript2 r ''DATA'' ''MEDIA_VERSION'' = Inr b"
    and rest: "seqs [contributors_step r, assign ''copyright'' (subscript2 r ''DATA'' ''COPYRIGHT''),
                     lyrics_step r]
                 ((deref w self)(''md5_origin'' \<mapsto> a, ''media_version'' \<mapsto> b)) = (None, deref w' self)"
    by (auto simp add: add_more_tags_body_def seqs_Cons_ok assign_ok simp del: seqs.simps)
  have keep: "snd (seqs [contributors_step r, assign ''copyright'' (subscript2 r ''DATA'' ''COPYRIGHT''),
                     lyrics_step r] ob) n = ob n"
    if "n = ''md5_origin'' \<or> n = ''media_version''" for n ob
    by (intro seqs_frame)
       (use that in \<open>auto simp add: assign_frame contributors_step_frame lyrics_step_frame\<close>)
  let ?ob = "(deref w self)(''md5_origin'' \<mapsto> a, ''media_version'' \<mapsto> b)"
  from keep [of "''md5_origin''" ?ob] keep [of "''media_version''" ?ob]
  have tags: "deref w' self ''md5_origin'' = Some a" "deref w' self ''media_version'' = Some b"
    unfolding rest by simp_all
  have "\<forall>n. n \<notin> extended_tags \<longrightarrow> deref w' self n = deref w self n"
    using add_more_tags_body_frame [of _ r "deref w self"] body by simp
  with tid g r a b tags show ?thesis by auto
qed

lemma no_gets_member: "stream_gets evs = 0 \<Longrightarrow> Get url ps \<notin> set evs"
  by (induction evs) (auto split: if_splits)

lemma py_encode_Inr: "py_encode v = Inr b \<longleftrightarrow> (\<exists>s. v = PStr s \<and> b = encode s)"
  by (cases v) auto

lemma get_stream_url_strs:
  assumes "get_stream_url E ob q = Inr url"
  shows "\<exists>h v. ob ''md5_origin'' = Some (PStr h) \<and> ob ''media_version'' = Some (PStr v)"
proof -
  from assms obtain a i b parts where a: "getattr ob ''md5_origin'' = Inr a"
    and b: "getattr ob ''media_version'' = Inr b"
    and parts: "encode_all [a, PStr q, PStr (py_str E i), b] = Inr parts"
    unfolding get_stream_url_def and_then_Inr by blast
  from parts obtain h v where "a = PStr h" "b = PStr v"
    by (auto simp add: and_then_Inr py_encode_Inr)
  with a b show ?thesis
    by (auto simp add: getattr_def split: option.splits)
qed

text \<open>What one run of the first statements of \<open>download_track\<close> sends.\<close>

lemma request_stream_cases:
  fixes E w track b
  defines "R \<equiv> request_stream E w track b"
    and "A \<equiv> add_more_tags E (update_requests_session w) track"
  shows "(\<exists>e. fst R = Inl e \<and> log (snd R) = log (snd A) \<and> deref (snd R) track = deref (snd A) track)
       \<or> (\<exists>u url. fst A = Inr u \<and>
            get_stream_url E (deref (snd A) track) (get_quality b) = Inr url \<and>
            log (snd R) = log (snd A) @ [Get url []] \<and>
            deref (snd R) track = deref (snd A) track)"
proof -
  obtain a w1 where A: "A = (a, w1)" by (cases A)
  show ?thesis
  proof (cases a)
    case (Inl e)
    with A have "R = (Inl e, w1)"
      unfolding R_def A_def by (simp add: request_stream_def)
    with A show ?thesis by simp
  next
    case u: (Inr u)
    show ?thesis
    proof (cases "get_stream_url E (deref w1 track) (get_quality b)")
      case (Inl e)
      with A u have "R = (Inl e, w1)"
        unfolding R_def A_def by (simp add: request_stream_def)
      with A show ?thesis by simp
    next
      case (Inr url)
      with A u have "log (snd R) = log w1 @ [Get url []] \<and> deref (snd R) track = deref w1 track"
        unfolding R_def A_def
        by (simp add: request_stream_def Let_def split: sum.splits)
      with A u Inr show ?thesis by simp
    qed
  qed
qed

lemma request_stream_Inr:
  assumes "request_stream E w track b = (Inr x, w1)"
  shows "\<exists>u w0 url. add_more_tags E (update_requests_session w) track = (Inr u, w0) \<and>
           get_stream_url E (deref w0 track) (get_quality b) = Inr url \<and>
           log w1 = log w0 @ [Get url []] \<and> deref w1 track = deref w0 track"
  using assms
  by (auto simp add: request_stream_def Let_def split: sum.splits prod.splits)

lemma request_stream_events:
  fixes E w track b
  defines "R \<equiv> request_stream E w track b"
  shows "\<exists>evs. log (snd R) = log w @ evs \<and> stream_gets evs \<le> page_track_posts E evs \<and>
           page_track_posts E evs \<le> 1 \<and> hydrated_before E False evs \<and>
           (\<forall>x. fst R = Inr x \<longrightarrow> stream_gets evs = 1 \<and> page_track_posts E evs = 1)"
proof -
  let ?A = "add_more_tags E (update_requests_session w) track"
  from add_more_tags_events [of E "update_requests_session w" track]
  obtain evs where evs: "log (snd ?A) = log w @ evs" "stream_gets evs = 0"
    "page_track_posts E evs \<le> 1"
    "\<forall>u. fst ?A = Inr u \<longrightarrow>
       evs \<noteq> [] \<and> is_page_track_post E (last evs) \<and> page_track_posts E evs = 1"
    by (elim exE conjE) (simp add: update_requests_session_def)
  from request_stream_cases [of E w track b]
  consider e where "fst R = Inl e" "log (snd R) = log (snd ?A)"
    | u url where "fst ?A = Inr u" "log (snd R) = log (snd ?A) @ [Get url []]"
    unfolding R_def by blast
  then show ?thesis
  proof cases
    case 1
    with evs show ?thesis
      by (intro exI [of _ evs]) (simp add: hydrated_before_no_gets)
  next
    case 2
    with evs have "evs \<noteq> []" "is_page_track_post E (last evs)" "page_track_posts E evs = 1"
      by auto
    with 2 evs show ?thesis
      by (intro exI [of _ "evs @ [Get url []]"]) (simp add: hydrated_before_get)
  qed
qed

text \<open>A GET is sent for a URL built from the origin hash and the media version of the
  page-track answer of the same run.\<close>

lemma request_stream_url:
  fixes E w track b
  defines "R \<equiv> request_stream E w track b"
  assumes get: "Get url ps \<in> set (new_events w (snd R))"
  shows "\<exists>tid r h v.
           getattr (deref w track) ''id'' = Inr tid \<and>
           fst (get_api E (update_requests_session w) (METHOD_PAGE_TRACK E)
                  (PDict [(''sng_id'', tid)])) = Inr r \<and>
           subscript2 r ''DATA'' ''MD5_ORIGIN'' = Inr (PStr h) \<and>
           subscript2 r ''DATA'' ''MEDIA_VERSION'' = Inr (PStr v) \<and>
           deref (snd R) track ''md5_origin'' = Some (PStr h) \<and>
           deref (snd R) track ''media_version'' = Some (PStr v) \<and>
           get_stream_url E (deref (snd R) track) (get_quality b) = Inr url"
proof -
  let ?w0 = "update_requests_session w"
  let ?A = "add_more_tags E ?w0 track"
  from add_more_tags_events [of E ?w0 track]
  obtain evs where evs: "log (snd ?A) = log w @ evs" "stream_gets evs = 0"
    by (elim exE conjE) (simp add: update_requests_session_def)
  from request_stream_cases [of E w track b]
  consider e where "fst R = Inl e" "log (snd R) = log (snd ?A)"
    | u url' where "fst ?A = Inr u"
        "get_stream_url E (deref (snd ?A) track) (get_quality b) = Inr url'"
        "log (snd R) = log (snd ?A) @ [Get url' []]"
        "deref (snd R) track = deref (snd ?A) track"
    unfolding R_def by blast
  then show ?thesis
  proof cases
    case 1
    with evs have "new_events w (snd R) = evs" by (simp add: new_events_log)
    with get evs(2) show ?thesis by (simp add: no_gets_member)
  next
    case 2
    with evs have "new_events w (snd R) = evs @ [Get url' []]" by (simp add: new_events_log)
    with get evs(2) have url: "url' = url" by (auto simp add: no_gets_member)
    from 2(1) have "?A = (Inr u, snd ?A)" by (simp add: prod_eq_iff)
    from add_more_tags_ok [OF this] obtain tid r a c where
      tid: "getattr (deref ?w0 track) ''id'' = Inr tid"
      and r: "fst (get_api E ?w0 (METHOD_PAGE_TRACK E) (PDict [(''sng_id'', tid)])) = Inr r"
      and a: "subscript2 r ''DATA'' ''MD5_ORIGIN'' = Inr a"
      and c: "subscript2 r ''DATA'' ''MEDIA_VERSION'' = Inr c"
      and tags: "deref (snd ?A) track ''md5_origin'' = Some a"
        "deref (snd ?A) track ''media_version'' = Some c"
      by (elim exE conjE) (rule that)
    from get_stream_url_strs [OF 2(2)] tags obtain h v where "a = PStr h" "c = PStr v"
      by auto
    with tid r a c tags 2 url show ?thesis
      by (auto simp add: update_requests_session_def)
  qed
qed

lemma request_stream_id:
  assumes "request_stream E w track b = (Inr x, w1)"
  shows "\<exists>tid. getattr (deref w track) ''id'' = Inr tid \<and> getattr (deref w1 track) ''id'' = Inr tid"
proof -
  from request_stream_Inr [OF assms] obtain u w0 where
    A: "add_more_tags E (update_requests_session w) track = (Inr u, w0)"
    and d: "deref w1 track = deref w0 track"
    by blast
  from add_more_tags_ok [OF A] obtain tid where
    tid: "getattr (deref (update_requests_session w) track) ''id'' = Inr tid"
    and same: "\<forall>n. n \<notin> extended_tags \<longrightarrow>
                 deref w0 track n = deref (update_requests_session w) track n"
    by blast
  have "''id'' \<notin> extended_tags" by (simp add: extended_tags_def)
  with same have "deref w0 track ''id'' = deref (update_requests_session w) track ''id''"
    by simp
  with tid d show ?thesis
    by (simp add: getattr_def update_requests_session_def)
qed

lemma iter_chunks_events:
  "\<exists>pe. snd (iter_chunks cb t cs cur buf evs) = evs @ pe \<and>
        stream_gets pe = 0 \<and> page_track_posts E pe = 0"
proof (induction cs arbitrary: cur buf evs)
  case Nil
  show ?case by simp
next
  case (Cons c cs)
  show ?case
  proof (cases cb)
    case True
    from Cons [of "cur + int (length c)" "buf @ c" "evs @ [Progress (cur + int (length c)) t]"]
    obtain pe where "snd (iter_chunks cb t cs (cur + int (length c)) (buf @ c)
                       (evs @ [Progress (cur + int (length c)) t])) =
                     (evs @ [Progress (cur + int (length c)) t]) @ pe"
      and "stream_gets pe = 0" "page_track_posts E pe = 0"
      by blast
    with True show ?thesis
      by (intro exI [of _ "Progress (cur + int (length c)) t # pe"]) simp
  next
    case False
    with Cons [of "cur + int (length c)" "buf @ c" evs] show ?thesis by simp
  qed
qed

lemma fallback_loop_events:
  fixes E w track bs cb
  defines "D \<equiv> fallback_loop E w track bs cb"
  shows "\<exists>evs. log (snd D) = log w @ evs \<and> stream_gets evs \<le> length bs \<and>
           stream_gets evs \<le> page_track_posts E evs \<and>
           page_track_posts E evs \<le> Suc (stream_gets evs) \<and>
           hydrated_before E False evs \<and>
           (\<forall>buf. fst D = Inr buf \<longrightarrow> page_track_posts E evs = stream_gets evs)"
  unfolding D_def
proof (induction bs arbitrary: w)
  case Nil
  show ?case by (intro exI [of _ "[]"]) (simp split: sum.splits)
next
  case (Cons b bs)
  let ?D = "fallback_loop E w track (b # bs) cb"
  obtain r w1 where R: "request_stream E w track b = (r, w1)"
    by (cases "request_stream E w track b")
  from request_stream_events [of E w track b] R
  obtain evs1 where evs1: "log w1 = log w @ evs1" "stream_gets evs1 \<le> page_track_posts E evs1"
    "page_track_posts E evs1 \<le> 1" "hydrated_before E False evs1"
    "\<forall>x. r = Inr x \<longrightarrow> stream_gets evs1 = 1 \<and> page_track_posts E evs1 = 1"
    by (elim exE conjE) simp
  show ?case
  proof (cases r)
    case (Inl e)
    with R have "?D = (Inl e, w1)" by simp
    with evs1 show ?thesis by (intro exI [of _ evs1]) simp
  next
    case (Inr x)
    obtain response t where x: "x = (response, t)" by (cases x)
    from evs1(5) Inr have one: "stream_gets evs1 = 1" "page_track_posts E evs1 = 1" by simp_all
    show ?thesis
    proof (cases "t = 0")
      case True
      with R Inr x have D: "?D = fallback_loop E w1 track bs cb" by simp
      from Cons [of w1] obtain evs2 where
        evs2: "log (snd (fallback_loop E w1 track bs cb)) = log w1 @ evs2"
        "stream_gets evs2 \<le> length bs" "stream_gets evs2 \<le> page_track_posts E evs2"
        "page_track_posts E evs2 \<le> Suc (stream_gets evs2)" "hydrated_before E False evs2"
        "\<forall>buf. fst (fallback_loop E w1 track bs cb) = Inr buf \<longrightarrow>
           page_track_posts E evs2 = stream_gets evs2"
        by (elim exE conjE) (rule that)
      from evs1 evs2 one show ?thesis
        unfolding D
        by (intro exI [of _ "evs1 @ evs2"]) (simp add: hydrated_before_append)
    next
      case False
      obtain buffer pevs where it: "iter_chunks cb t (chunks response) 0 [] [] = (buffer, pevs)"
        by (cases "iter_chunks cb t (chunks response) 0 [] []")
      from iter_chunks_events [of cb t "chunks response" 0 "[]" "[]" E] it
      have pe: "stream_gets pevs = 0" "page_track_posts E pevs = 0" by simp_all
      from False R Inr x it have "log (snd ?D) = log w1 @ pevs"
        by (simp split: option.splits)
      with evs1 one pe show ?thesis
        by (intro exI [of _ "evs1 @ pevs"])
           (simp add: hydrated_before_append hydrated_before_no_gets)
    qed
  qed
qed

lemma chain_from_length: "length (chain_from bitrate) \<le> 4"
  by (simp add: chain_from_def Let_def)

lemma get_stream_url_returns:
  assumes "track ''md5_origin'' = Some (PStr (c # cs))" and "track ''id'' = Some i"
    and "track ''media_version'' = Some (PStr v)"
  shows "\<exists>url. get_stream_url E track quality = Inr url"
proof -
  define body where
    "body = join [CHR 0xA4] [encode (c # cs), encode quality, encode (py_str E i), encode v]"
  define plain where "plain = join [CHR 0xA4] [md5hex E body, body] @ [CHR 0xA4]"
  define padded where
    "padded = plain @ replicate ((16 - length plain mod 16) mod 16) (CHR 0x00)"
  have parts: "encode_all [PStr (c # cs), PStr quality, PStr (py_str E i), PStr v] =
      Inr [encode (c # cs), encode quality, encode (py_str E i), encode v]"
    by (simp add: and_then_def)
  have pad: "(if length plain mod 16 \<noteq> 0
       then plain @ replicate (16 - length plain mod 16) (CHR 0x00) else plain) = padded"
    unfolding padded_def by (rule pad16_if)
  have "length padded mod 16 = 0"
    unfolding padded_def by (rule pad16_length)
  then have enc: "ecb_encrypt E (encode ''jo6aey6haid2Teih'') padded =
      Inr (concat (map (aes_encrypt_block E (encode ''jo6aey6haid2Teih'')) (blocks16 padded)))"
    by (simp add: ecb_encrypt_def)
  show ?thesis
    unfolding get_stream_url_def getattr_def assms option.case
    by (simp only: and_then_def sum.case parts Let_def body_def [symmetric]
        plain_def [symmetric] pad enc first_char.simps) simp
qed

text \<open>One run of the first statements of \<open>download_track\<close> when the token is valid, the
  track has its ID and the provider gives the page-track answer.\<close>

lemma request_stream_ready:
  assumes json: "json_response E = (\<lambda>l. Inr (PDict [(''results'', page_track_answer)]))"
    and tok: "truthy (csrf_token w)" and fresh: "session_expires w \<le> time E (log w)"
    and id: "deref w track ''id'' = Some (PInt 12345)"
  shows "\<exists>url w1.
      log w1 = log w @ [api_post E (update_requests_session w) (METHOD_PAGE_TRACK E)
                          (PDict [(''sng_id'', PInt 12345)]), Get url []] \<and>
      csrf_token w1 = csrf_token w \<and> session_expires w1 = session_expires w \<and>
      deref w1 track ''id'' = Some (PInt 12345) \<and>
      request_stream E w track b =
        (case stream_response E (log w1) of
           Inl e \<Rightarrow> (Inl e, w1)
         | Inr response \<Rightarrow>
             (case content_length response of
                Inl e \<Rightarrow> (Inl e, w1)
              | Inr t \<Rightarrow> (Inr (response, t), w1)))"
proof -
  let ?w0 = "update_requests_session w"
  let ?json = "PDict [(''sng_id'', PInt 12345)]"
  let ?post = "api_post E ?w0 (METHOD_PAGE_TRACK E) ?json"
  let ?wA = "?w0\<lparr>client_open := True, log := log ?w0 @ [?post]\<rparr>"
  have gid: "getattr (deref ?w0 track) ''id'' = Inr (PInt 12345)"
    using id by (simp add: getattr_def update_requests_session_def)
  from tok fresh have "truthy (csrf_token ?w0) \<and> session_expires ?w0 \<le> time E (log ?w0)"
    by (simp add: update_requests_session_def)
  then have "get_api E ?w0 (METHOD_PAGE_TRACK E) ?json =
     (and_then (json_response E (log ?w0 @ [?post]))
        (\<lambda>response. subscript response ''results''), ?wA)"
    by (intro get_api_direct) simp
  then have api: "get_api E ?w0 (METHOD_PAGE_TRACK E) ?json = (Inr page_track_answer, ?wA)"
    by (simp add: json and_then_def)
  define ob where "ob = snd (add_more_tags_body page_track_answer (deref w track))"
  have body: "add_more_tags_body page_track_answer (deref w track) = (None, ob)"
    unfolding ob_def by (simp add: hydrate_body)
  have ob: "ob ''md5_origin'' = Some (PStr ''abc123'')" "ob ''media_version'' = Some (PStr ''1'')"
    "ob ''id'' = Some (PInt 12345)"
    unfolding ob_def using id by (simp_all add: hydrate_body)
  define wB where "wB = ?wA\<lparr>heap := (heap ?wA)(track \<mapsto> ob)\<rparr>"
  have dA: "deref ?wA track = deref w track"
    by (simp add: deref_def update_requests_session_def)
  have "run_on ?wA track (add_more_tags_body page_track_answer) = (Inr (), wB)"
    unfolding run_on_def dA body wB_def by simp
  then have tags: "add_more_tags E ?w0 track = (Inr (), wB)"
    by (simp add: add_more_tags_def gid api)
  have dB: "deref wB track = ob"
    by (simp add: wB_def deref_def)
  from get_stream_url_returns [OF ob(1) ob(3) ob(2), of E "get_quality b"]
  obtain url where url: "get_stream_url E ob (get_quality b) = Inr url" ..
  define w1 where "w1 = wB\<lparr>log := log wB @ [Get url []]\<rparr>"
  have "log w1 = log w @ [?post, Get url []]"
    by (simp add: w1_def wB_def update_requests_session_def)
  moreover have "csrf_token w1 = csrf_token w \<and> session_expires w1 = session_expires w"
    by (simp add: w1_def wB_def update_requests_session_def)
  moreover have "deref w1 track ''id'' = Some (PInt 12345)"
    using ob(3) by (simp add: w1_def wB_def deref_def)
  moreover have "request_stream E w track b =
        (case stream_response E (log w1) of
           Inl e \<Rightarrow> (Inl e, w1)
         | Inr response \<Rightarrow>
             (case content_length response of
                Inl e \<Rightarrow> (Inl e, w1)
              | Inr t \<Rightarrow> (Inr (response, t), w1)))"
    by (simp add: request_stream_def Let_def tags dB url w1_def split: sum.splits)
  ultimately show ?thesis by (intro exI [of _ url] exI [of _ w1]) simp
qed

lemma download_track_zero:
  assumes R: "request_stream E w track bitrate = (Inr (response, 0), w1)"
  shows "case chain_from bitrate of
           b # lower # bs \<Rightarrow>
             download_track E w track bitrate cb = download_track E w1 track lower cb
         | _ \<Rightarrow> (\<exists>tid. getattr (deref w track) ''id'' = Inr tid \<and>
                  download_track E w track bitrate cb = (Inl (DownloadError tid), w1))"
proof -
  consider "bitrate = PStr ''FLAC''" | "bitrate = PStr ''MP3_320''" | "bitrate = PStr ''MP3_256''"
    | "bitrate \<noteq> PStr ''FLAC''" "bitrate \<noteq> PStr ''MP3_320''" "bitrate \<noteq> PStr ''MP3_256''"
    by auto
  then show ?thesis
  proof cases
    case 1
    with R show ?thesis
      by (simp add: chain_from_eval download_track.simps [of E w track "PStr ''FLAC''" cb])
  next
    case 2
    with R show ?thesis
      by (simp add: chain_from_eval download_track.simps [of E w track "PStr ''MP3_320''" cb])
  next
    case 3
    with R show ?thesis
      by (simp add: chain_from_eval download_track.simps [of E w track "PStr ''MP3_256''" cb])
  next
    case 4
    from request_stream_id [OF R] obtain tid where
      "getattr (deref w track) ''id'' = Inr tid" "getattr (deref w1 track) ''id'' = Inr tid"
      by blast
    with 4 R show ?thesis
      by (simp add: chain_from_other download_track.simps [of E w track bitrate cb])
  qed
qed

lemma download_track_events:
  fixes E w track bitrate cb
  defines "D \<equiv> download_track E w track bitrate cb"
  defines "evs \<equiv> new_events w (snd D)"
  shows "stream_gets evs \<le> length (chain_from bitrate) \<and>
         stream_gets evs \<le> page_track_posts E evs \<and>
         page_track_posts E evs \<le> Suc (stream_gets evs) \<and>
         hydrated_before E False evs \<and>
         (\<forall>buf. fst D = Inr buf \<longrightarrow> page_track_posts E evs = stream_gets evs)"
proof -
  have D: "fallback_loop E w track (chain_from bitrate) cb = D"
    unfolding D_def by (rule download_track_loop [symmetric])
  from fallback_loop_events [of E w track "chain_from bitrate" cb, unfolded D]
  obtain es where es: "log (snd D) = log w @ es" "stream_gets es \<le> length (chain_from bitrate)"
    "stream_gets es \<le> page_track_posts E es" "page_track_posts E es \<le> Suc (stream_gets es)"
    "hydrated_before E False es"
    "\<forall>buf. fst D = Inr buf \<longrightarrow> page_track_posts E es = stream_gets es"
    by (elim exE conjE) (rule that)
  from es(1) have "evs = es" unfolding evs_def by (rule new_events_log)
  with es show ?thesis by simp
qed

lemma download_track_once:
  assumes R: "request_stream E w track bitrate = (Inr (response, t), w1)" and t: "t \<noteq> 0"
  shows "stream_gets (new_events w (snd (download_track E w track bitrate cb))) = 1"
proof -
  from request_stream_events [of E w track bitrate] R
  obtain evs1 where evs1: "log w1 = log w @ evs1" "stream_gets evs1 = 1"
    by (elim exE conjE) simp
  obtain buffer pevs where it: "iter_chunks cb t (chunks response) 0 [] [] = (buffer, pevs)"
    by (cases "iter_chunks cb t (chunks response) 0 [] []")
  from iter_chunks_events [of cb t "chunks response" 0 "[]" "[]" E] it
  have pe: "stream_gets pevs = 0" by simp
  from R t it have "log (snd (download_track E w track bitrate cb)) = log w1 @ pevs"
    by (simp add: download_track.simps [of E w track bitrate cb] split: option.splits)
  with evs1 have "new_events w (snd (download_track E w track bitrate cb)) = evs1 @ pevs"
    by (simp add: new_events_log)
  with evs1 pe show ?thesis by simp
qed

text \<open>
  C3. \<open>download_track\<close> is the loop down the chain from the requested bitrate: a declared
  length of zero makes it call itself with the next lower bitrate of
  \<open>FLAC\<close>, \<open>MP3_320\<close>, \<open>MP3_256\<close>, \<open>MP3_128\<close>, and at \<open>MP3_128\<close>, as at any bitrate outside
  the chain, it raises \<open>DownloadError\<close> with the track's ID and sends nothing more. So a
  download sends at most four GETs. Nothing else is tried again: an exception of the
  request ends the download with that exception, and an answer with another length is
  read after the one GET.
\<close>

theorem download_track_fallback:
  "download_track E w track bitrate cb = fallback_loop E w track (chain_from bitrate) cb \<and>
   chain_from (PStr ''FLAC'') =
     [PStr ''FLAC'', PStr ''MP3_320'', PStr ''MP3_256'', PStr ''MP3_128''] \<and>
   stream_gets (new_events w (snd (download_track E w track bitrate cb)))
     \<le> length (chain_from bitrate) \<and>
   length (chain_from bitrate) \<le> 4 \<and>
   (\<forall>response w1. request_stream E w track bitrate = (Inr (response, 0), w1) \<longrightarrow>
      (case chain_from bitrate of
         b # lower # bs \<Rightarrow>
           download_track E w track bitrate cb = download_track E w1 track lower cb
       | _ \<Rightarrow> (\<exists>tid. getattr (deref w track) ''id'' = Inr tid \<and>
                download_track E w track bitrate cb = (Inl (DownloadError tid), w1)))) \<and>
   (\<forall>e w1. request_stream E w track bitrate = (Inl e, w1) \<longrightarrow>
      download_track E w track bitrate cb = (Inl e, w1)) \<and>
   (\<forall>response t w1. request_stream E w track bitrate = (Inr (response, t), w1) \<longrightarrow> t \<noteq> 0 \<longrightarrow>
      stream_gets (new_events w (snd (download_track E w track bitrate cb))) = 1)"
proof (intro conjI allI impI)
  show "download_track E w track bitrate cb = fallback_loop E w track (chain_from bitrate) cb"
    by (rule download_track_loop)
  show "chain_from (PStr ''FLAC'') =
     [PStr ''FLAC'', PStr ''MP3_320'', PStr ''MP3_256'', PStr ''MP3_128'']"
    by (rule chain_from_eval)
  show "stream_gets (new_events w (snd (download_track E w track bitrate cb)))
     \<le> length (chain_from bitrate)"
    using download_track_events [of w E track bitrate cb] by simp
  show "length (chain_from bitrate) \<le> 4"
    by (rule chain_from_length)
next
  fix response w1
  assume "request_stream E w track bitrate = (Inr (response, 0), w1)"
  then show "case chain_from bitrate of
         b # lower # bs \<Rightarrow>
           download_track E w track bitrate cb = download_track E w1 track lower cb
       | _ \<Rightarrow> (\<exists>tid. getattr (deref w track) ''id'' = Inr tid \<and>
                download_track E w track bitrate cb = (Inl (DownloadError tid), w1))"
    by (rule download_track_zero)
next
  fix e w1
  assume "request_stream E w track bitrate = (Inl e, w1)"
  then show "download_track E w track bitrate cb = (Inl e, w1)"
    by (simp add: download_track.simps [of E w track bitrate cb])
next
  fix response t w1
  assume "request_stream E w track bitrate = (Inr (response, t), w1)" and "t \<noteq> 0"
  then show "stream_gets (new_events w (snd (download_track E w track bitrate cb))) = 1"
    by (rule download_track_once)
qed

lemma hydrate_world_ready:
  "truthy (csrf_token hydrate_world)" "session_expires hydrate_world \<le> 200"
  "deref hydrate_world 0 ''id'' = Some (PInt 12345)" "log hydrate_world = []"
  by (simp_all add: hydrate_world_def stale_world_def Session_init_def deref_def demo_track_def)

lemma no_audio_request:
  assumes "truthy (csrf_token w)" and "session_expires w \<le> 200"
    and "deref w 0 ''id'' = Some (PInt 12345)"
  shows "\<exists>w1 evs. request_stream no_audio_env w 0 b = (Inr (empty_stream, 0), w1) \<and>
           truthy (csrf_token w1) \<and> session_expires w1 \<le> 200 \<and>
           deref w1 0 ''id'' = Some (PInt 12345) \<and>
           log w1 = log w @ evs \<and> stream_gets evs = 1"
proof -
  have json: "json_response no_audio_env = (\<lambda>l. Inr (PDict [(''results'', page_track_answer)]))"
    by (simp add: no_audio_env_def hydrate_env_def)
  from assms(2) have fresh: "session_expires w \<le> time no_audio_env (log w)"
    by (simp add: no_audio_env_def hydrate_env_def)
  from request_stream_ready [OF json assms(1) fresh assms(3), of b]
  obtain url w1 where w1: "log w1 = log w @
        [api_post no_audio_env (update_requests_session w) (METHOD_PAGE_TRACK no_audio_env)
           (PDict [(''sng_id'', PInt 12345)]), Get url []]"
    "csrf_token w1 = csrf_token w" "session_expires w1 = session_expires w"
    "deref w1 0 ''id'' = Some (PInt 12345)"
    and R: "request_stream no_audio_env w 0 b =
        (case stream_response no_audio_env (log w1) of
           Inl e \<Rightarrow> (Inl e, w1)
         | Inr response \<Rightarrow>
             (case content_length response of
                Inl e \<Rightarrow> (Inl e, w1)
              | Inr t \<Rightarrow> (Inr (response, t), w1)))"
    by (elim exE conjE) (rule that)
  from R have "request_stream no_audio_env w 0 b = (Inr (empty_stream, 0), w1)"
    by (simp add: no_audio_env_def empty_stream_def)
  with w1 assms show ?thesis
    by (intro exI [of _ w1] exI [of _ "[api_post no_audio_env (update_requests_session w)
          (METHOD_PAGE_TRACK no_audio_env) (PDict [(''sng_id'', PInt 12345)]), Get url []]"])
       simp
qed

lemma no_audio_loop:
  assumes "truthy (csrf_token w)" and "session_expires w \<le> 200"
    and "deref w 0 ''id'' = Some (PInt 12345)"
  shows "fst (fallback_loop no_audio_env w 0 bs cb) = Inl (DownloadError (PInt 12345)) \<and>
         stream_gets (new_events w (snd (fallback_loop no_audio_env w 0 bs cb))) = length bs"
  using assms
proof (induction bs arbitrary: w)
  case Nil
  then show ?case by (simp add: getattr_def new_events_def)
next
  case (Cons b bs)
  from no_audio_request [OF Cons.prems, of b] obtain w1 evs where
    R: "request_stream no_audio_env w 0 b = (Inr (empty_stream, 0), w1)"
    and ready: "truthy (csrf_token w1)" "session_expires w1 \<le> 200"
      "deref w1 0 ''id'' = Some (PInt 12345)"
    and evs: "log w1 = log w @ evs" "stream_gets evs = 1"
    by (elim exE conjE) (rule that)
  from R have D: "fallback_loop no_audio_env w 0 (b # bs) cb = fallback_loop no_audio_env w1 0 bs cb"
    by simp
  from Cons.IH [OF ready]
  have res: "fst (fallback_loop no_audio_env w1 0 bs cb) = Inl (DownloadError (PInt 12345))"
    and gets: "stream_gets (new_events w1 (snd (fallback_loop no_audio_env w1 0 bs cb))) = length bs"
    by simp_all
  from fallback_loop_events [of no_audio_env w1 0 bs cb] obtain evs2 where
    evs2: "log (snd (fallback_loop no_audio_env w1 0 bs cb)) = log w1 @ evs2"
    by (elim exE conjE) (rule that)
  then have "new_events w1 (snd (fallback_loop no_audio_env w1 0 bs cb)) = evs2"
    by (rule new_events_log)
  with gets have g2: "stream_gets evs2 = length bs" by simp
  from evs evs2 have "log (snd (fallback_loop no_audio_env w1 0 bs cb)) = log w @ (evs @ evs2)"
    by simp
  then have "new_events w (snd (fallback_loop no_audio_env w1 0 bs cb)) = evs @ evs2"
    by (rule new_events_log)
  with evs(2) g2 res show ?case unfolding D by simp
qed

theorem download_track_fallback_witness:
  "fst (request_stream no_audio_env hydrate_world 0 (PStr ''FLAC'')) = Inr (empty_stream, 0) \<and>
   download_track no_audio_env hydrate_world 0 (PStr ''FLAC'') False =
     download_track no_audio_env (snd (request_stream no_audio_env hydrate_world 0 (PStr ''FLAC'')))
       0 (PStr ''MP3_320'') False \<and>
   fst (download_track no_audio_env hydrate_world 0 (PStr ''FLAC'') False) =
     Inl (DownloadError (PInt 12345)) \<and>
   stream_gets (new_events hydrate_world
     (snd (download_track no_audio_env hydrate_world 0 (PStr ''FLAC'') False))) = 4"
proof -
  let ?R = "request_stream no_audio_env hydrate_world 0 (PStr ''FLAC'')"
  let ?D = "download_track no_audio_env hydrate_world 0 (PStr ''FLAC'') False"
  note inst = download_track_fallback [of no_audio_env hydrate_world 0 "PStr ''FLAC''" False]
  from inst have loop: "?D = fallback_loop no_audio_env hydrate_world 0
      [PStr ''FLAC'', PStr ''MP3_320'', PStr ''MP3_256'', PStr ''MP3_128''] False"
    by simp
  from no_audio_request [OF hydrate_world_ready(1-3), of "PStr ''FLAC''"]
  obtain w1 where R: "?R = (Inr (empty_stream, 0), w1)" by blast
  from inst have "\<forall>response w1. ?R = (Inr (response, 0), w1) \<longrightarrow>
      (case chain_from (PStr ''FLAC'') of
         b # lower # bs \<Rightarrow> ?D = download_track no_audio_env w1 0 lower False
       | _ \<Rightarrow> (\<exists>tid. getattr (deref hydrate_world 0) ''id'' = Inr tid \<and>
                ?D = (Inl (DownloadError tid), w1)))"
    by (elim conjE)
  with R have "case chain_from (PStr ''FLAC'') of
         b # lower # bs \<Rightarrow> ?D = download_track no_audio_env w1 0 lower False
       | _ \<Rightarrow> (\<exists>tid. getattr (deref hydrate_world 0) ''id'' = Inr tid \<and>
                ?D = (Inl (DownloadError tid), w1))"
    by (elim allE impE) assumption
  then have step: "?D = download_track no_audio_env w1 0 (PStr ''MP3_320'') False"
    by (simp add: chain_from_eval)
  from no_audio_loop [OF hydrate_world_ready(1-3),
      of "[PStr ''FLAC'', PStr ''MP3_320'', PStr ''MP3_256'', PStr ''MP3_128'']" False]
  have "fst ?D = Inl (DownloadError (PInt 12345))"
    and "stream_gets (new_events hydrate_world (snd ?D)) = 4"
    unfolding loop by simp_all
  with R step show ?thesis by simp
qed


lemma second_try_request:
  assumes "truthy (csrf_token w)" and "session_expires w \<le> 200"
    and "deref w 0 ''id'' = Some (PInt 12345)"
  shows "\<exists>w1 evs. truthy (csrf_token w1) \<and> session_expires w1 \<le> 200 \<and>
           deref w1 0 ''id'' = Some (PInt 12345) \<and>
           log w1 = log w @ evs \<and> stream_gets evs = 1 \<and>
           request_stream second_try_env w 0 b =
             (if stream_gets (log w) = 0 then (Inr (empty_stream, 0), w1)
              else (Inr (audio_stream, 3), w1))"
proof -
  have json: "json_response second_try_env = (\<lambda>l. Inr (PDict [(''results'', page_track_answer)]))"
    by (simp add: second_try_env_def hydrate_env_def)
  from assms(2) have fresh: "session_expires w \<le> time second_try_env (log w)"
    by (simp add: second_try_env_def hydrate_env_def)
  from request_stream_ready [OF json assms(1) fresh assms(3), of b]
  obtain url w1 where w1: "log w1 = log w @
        [api_post second_try_env (update_requests_session w) (METHOD_PAGE_TRACK second_try_env)
           (PDict [(''sng_id'', PInt 12345)]), Get url []]"
    "csrf_token w1 = csrf_token w" "session_expires w1 = session_expires w"
    "deref w1 0 ''id'' = Some (PInt 12345)"
    and R: "request_stream second_try_env w 0 b =
        (case stream_response second_try_env (log w1) of
           Inl e \<Rightarrow> (Inl e, w1)
         | Inr response \<Rightarrow>
             (case content_length response of
                Inl e \<Rightarrow> (Inl e, w1)
              | Inr t \<Rightarrow> (Inr (response, t), w1)))"
    by (elim exE conjE) (rule that)
  from w1(1) have "stream_gets (log w1) = Suc (stream_gets (log w))" by simp
  with R have "request_stream second_try_env w 0 b =
             (if stream_gets (log w) = 0 then (Inr (empty_stream, 0), w1)
              else (Inr (audio_stream, 3), w1))"
    by (simp add: second_try_env_def empty_stream_def audio_stream_def)
  with w1 assms show ?thesis
    by (intro exI [of _ w1] exI [of _ "[api_post second_try_env (update_requests_session w)
          (METHOD_PAGE_TRACK second_try_env) (PDict [(''sng_id'', PInt 12345)]), Get url []]"])
       simp
qed

lemma second_try_download:
  "fst (download_track second_try_env hydrate_world 0 (PStr ''FLAC'') True) = Inr ''abc'' \<and>
   stream_gets (new_events hydrate_world
     (snd (download_track second_try_env hydrate_world 0 (PStr ''FLAC'') True))) = 2"
proof -
  from second_try_request [OF hydrate_world_ready(1-3), of "PStr ''FLAC''"]
  obtain w1 evs1 where ready1: "truthy (csrf_token w1)" "session_expires w1 \<le> 200"
    "deref w1 0 ''id'' = Some (PInt 12345)"
    and evs1: "log w1 = evs1" "stream_gets evs1 = 1"
    and R1: "request_stream second_try_env hydrate_world 0 (PStr ''FLAC'') =
               (Inr (empty_stream, 0), w1)"
    by (elim exE conjE) (simp add: hydrate_world_ready)
  from second_try_request [OF ready1, of "PStr ''MP3_320''"]
  obtain w2 evs2 where evs2: "log w2 = log w1 @ evs2" "stream_gets evs2 = 1"
    and R2: "request_stream second_try_env w1 0 (PStr ''MP3_320'') = (Inr (audio_stream, 3), w2)"
    using evs1 by (elim exE conjE) simp
  have it: "iter_chunks True 3 (chunks audio_stream) 0 [] [] =
              (''abc'', [Progress 2 3, Progress 3 3])"
    by (simp add: audio_stream_def)
  from R1 have "download_track second_try_env hydrate_world 0 (PStr ''FLAC'') True =
      download_track second_try_env w1 0 (PStr ''MP3_320'') True"
    by (simp add: download_track.simps [of second_try_env hydrate_world 0 "PStr ''FLAC''" True])
  also from R2 it have "\<dots> = (Inr ''abc'', w2\<lparr>log := log w2 @ [Progress 2 3, Progress 3 3]\<rparr>)"
    by (simp add: download_track.simps [of second_try_env w1 0 "PStr ''MP3_320''" True]
        audio_stream_def)
  finally have D: "download_track second_try_env hydrate_world 0 (PStr ''FLAC'') True =
      (Inr ''abc'', w2\<lparr>log := log w2 @ [Progress 2 3, Progress 3 3]\<rparr>)" .
  from evs1 evs2 show ?thesis
    unfolding D by (simp add: new_events_def hydrate_world_ready)
qed


subsection \<open>The limits of a search\<close>

lemma map_result_Inr:
  "map_result f xs = Inr ys \<longleftrightarrow> length ys = length xs \<and> (\<forall>i<length xs. f (xs ! i) = Inr (ys ! i))"
proof (induction xs arbitrary: ys)
  case Nil
  show ?case by auto
next
  case (Cons x xs)
  show ?case
  proof (cases "f x")
    case (Inl e)
    then show ?thesis by (auto simp add: and_then_def)
  next
    case y: (Inr y)
    show ?thesis
    proof (cases "map_result f xs")
      case (Inl e)
      with Cons [of "tl ys"] have "\<not> (length (tl ys) = length xs \<and>
          (\<forall>i<length xs. f (xs ! i) = Inr (tl ys ! i)))"
        by simp
      then have "\<not> (length ys = length (x # xs) \<and>
          (\<forall>i<length (x # xs). f ((x # xs) ! i) = Inr (ys ! i)))"
        by (cases ys) auto
      with y Inl show ?thesis by (simp add: and_then_def)
    next
      case zs: (Inr zs)
      with Cons [of zs] have zs': "length zs = length xs"
        "\<forall>i<length xs. f (xs ! i) = Inr (zs ! i)"
        by simp_all
      have "ys = y # zs \<longleftrightarrow> length ys = length (x # xs) \<and>
          (\<forall>i<length (x # xs). f ((x # xs) ! i) = Inr (ys ! i))"
      proof
        assume "ys = y # zs"
        with y zs' show "length ys = length (x # xs) \<and>
          (\<forall>i<length (x # xs). f ((x # xs) ! i) = Inr (ys ! i))"
          by (auto simp add: nth_Cons split: nat.splits)
      next
        assume r: "length ys = length (x # xs) \<and>
          (\<forall>i<length (x # xs). f ((x # xs) ! i) = Inr (ys ! i))"
        then obtain y' ys' where ys: "ys = y' # ys'" by (cases ys) auto
        with r have "f x = Inr y'" by auto
        with y have y': "y' = y" by simp
        from r ys have "length ys' = length xs \<and> (\<forall>i<length xs. f (xs ! i) = Inr (ys' ! i))"
          by auto
        with Cons [of ys'] zs have "ys' = zs" by simp
        with ys y' show "ys = y # zs" by simp
      qed
      with y zs show ?thesis by (auto simp add: and_then_def)
    qed
  qed
qed

lemma search_songs_lists:
  assumes a: "fst (find_albums E (update_requests_session w) name) = Inr (PList as)"
    and t: "fst (find_tracks E (snd (find_albums E (update_requests_session w) name)) name)
              = Inr (PList ts)"
  shows "fst (search_songs E w name albums_count songs_limit) =
           and_then (map_result album_summary (slice_to albums_count as)) (\<lambda>albums.
           and_then (map_result track_summary (slice_to (songs_limit - albums_count) ts))
             (\<lambda>tracks. Inr (albums, tracks)))"
proof -
  obtain ra w1 where A: "find_albums E (update_requests_session w) name = (ra, w1)"
    by (cases "find_albums E (update_requests_session w) name")
  obtain rt w2 where T: "find_tracks E w1 name = (rt, w2)"
    by (cases "find_tracks E w1 name")
  from a t A T have "ra = Inr (PList as)" "rt = Inr (PList ts)" by simp_all
  with A T show ?thesis
    by (simp add: search_songs_def Let_def and_then_def cong: sum.case_cong)
qed

text \<open>
  C9, amended. The two searches have answered with lists, and the limits satisfy
  \<open>0 \<le> albums_count \<le> songs_limit\<close>. Then \<open>search_songs\<close> makes its rows of the first
  \<open>albums_count\<close> albums and of the first \<open>songs_limit - albums_count\<close> tracks, one after
  the other: when it returns, the rows are as many as those (or as the provider gave, if
  fewer) and the row at each position is made of the provider's entry at that position.
\<close>

theorem search_songs_truncates:
  assumes a: "fst (find_albums E (update_requests_session w) name) = Inr (PList as)"
    and t: "fst (find_tracks E (snd (find_albums E (update_requests_session w) name)) name)
              = Inr (PList ts)"
    and limits: "0 \<le> albums_count" "albums_count \<le> songs_limit"
  shows "fst (search_songs E w name albums_count songs_limit) =
           and_then (map_result album_summary (take (nat albums_count) as)) (\<lambda>albums.
           and_then (map_result track_summary (take (nat (songs_limit - albums_count)) ts))
             (\<lambda>tracks. Inr (albums, tracks))) \<and>
         (\<forall>albums tracks.
            fst (search_songs E w name albums_count songs_limit) = Inr (albums, tracks) \<longrightarrow>
              length albums = min (nat albums_count) (length as) \<and>
              length tracks = min (nat (songs_limit - albums_count)) (length ts) \<and>
              (\<forall>i<length albums. album_summary (as ! i) = Inr (albums ! i)) \<and>
              (\<forall>i<length tracks. track_summary (ts ! i) = Inr (tracks ! i)))"
proof -
  from limits have s: "slice_to albums_count as = take (nat albums_count) as"
    "slice_to (songs_limit - albums_count) ts = take (nat (songs_limit - albums_count)) ts"
    by (simp_all add: slice_to_def)
  have eq: "fst (search_songs E w name albums_count songs_limit) =
           and_then (map_result album_summary (take (nat albums_count) as)) (\<lambda>albums.
           and_then (map_result track_summary (take (nat (songs_limit - albums_count)) ts))
             (\<lambda>tracks. Inr (albums, tracks)))"
    using search_songs_lists [OF a t, of albums_count songs_limit] by (simp add: s)
  have rows: "length albums = min (nat albums_count) (length as) \<and>
              length tracks = min (nat (songs_limit - albums_count)) (length ts) \<and>
              (\<forall>i<length albums. album_summary (as ! i) = Inr (albums ! i)) \<and>
              (\<forall>i<length tracks. track_summary (ts ! i) = Inr (tracks ! i))"
    if "fst (search_songs E w name albums_count songs_limit) = Inr (albums, tracks)"
    for albums tracks
  proof -
    from that eq
    have ra: "map_result album_summary (take (nat albums_count) as) = Inr albums"
      and rt: "map_result track_summary (take (nat (songs_limit - albums_count)) ts) = Inr tracks"
      by (auto simp add: and_then_Inr)
    from ra have "length albums = min (nat albums_count) (length as)"
      and "\<forall>i<length albums. album_summary (as ! i) = Inr (albums ! i)"
      by (auto simp add: map_result_Inr min.commute)
    moreover from rt have "length tracks = min (nat (songs_limit - albums_count)) (length ts)"
      and "\<forall>i<length tracks. track_summary (ts ! i) = Inr (tracks ! i)"
      by (auto simp add: map_result_Inr min.commute)
    ultimately show ?thesis by simp
  qed
  from eq rows show ?thesis by blast
qed

lemma demo_rows:
  "album_summary (demo_album i) = Inr (demo_album_row i)"
  "track_summary (demo_song i) = Inr (demo_song_row i)"
  by (simp_all add: album_summary_def track_summary_def demo_album_def demo_song_def
      demo_album_row_def demo_song_row_def subscript2_def and_then_def)

lemma search_env_albums:
  "fst (find_albums search_env (update_requests_session stale_world) ''ann'') =
     Inr (PList (map demo_album [1, 2, 3, 4, 5, 6, 7, 8, 9, 10]))"
  by (simp add: find_albums_def Let_def search_env_def demo_env_def and_then_def)

lemma search_env_tracks:
  "fst (find_tracks search_env
         (snd (find_albums search_env (update_requests_session stale_world) ''ann'')) ''ann'') =
     Inr (PList (map demo_song [1, 2, 3, 4, 5, 6, 7, 8, 9, 10]))"
  by (simp add: find_tracks_def find_albums_def Let_def search_env_def demo_env_def and_then_def)

theorem search_songs_truncates_witness:
  "(0::int) \<le> 3 \<and> (3::int) \<le> 50 \<and>
   fst (search_songs search_env stale_world ''ann'' 3 50) =
     Inr ([demo_album_row 1, demo_album_row 2, demo_album_row 3],
          map demo_song_row [1, 2, 3, 4, 5, 6, 7, 8, 9, 10])"
proof -
  from search_songs_truncates [OF search_env_albums search_env_tracks, of 3 50]
  have "fst (search_songs search_env stale_world ''ann'' 3 50) =
      and_then (map_result album_summary (take (nat 3) (map demo_album [1, 2, 3, 4, 5, 6, 7, 8, 9, 10])))
        (\<lambda>albums.
      and_then (map_result track_summary
                 (take (nat (50 - 3)) (map demo_song [1, 2, 3, 4, 5, 6, 7, 8, 9, 10])))
        (\<lambda>tracks. Inr (albums, tracks)))"
    by simp
  then show ?thesis
    by (simp add: demo_rows and_then_def)
qed

text \<open>
  C9 as stated reaches every pair of limits. With more albums asked for than results in
  all, \<open>songs_limit - albums_count\<close> is negative and the slice drops that many tracks from
  the end instead: for the limits 5 and 3 the search returns five albums and eight of the
  ten tracks.
\<close>

theorem search_songs_negative_limit:
  "fst (search_songs search_env stale_world ''ann'' 5 3) =
     Inr (map demo_album_row [1, 2, 3, 4, 5], map demo_song_row [1, 2, 3, 4, 5, 6, 7, 8])"
proof -
  from search_songs_lists [OF search_env_albums search_env_tracks, of 5 3]
  show ?thesis
    by (simp add: slice_to_def demo_rows and_then_def)
qed

end
